theory Spec2Isabelle
  imports Complex_Main
begin

section \<open>Errors and tensors\<close>

text \<open>
  Floating-point tensors are idealised: a rank-1 tensor is a list of reals, one entry per
  sample. An operation whose IEEE result would be infinite or NaN (a division by zero, the
  mean of an empty tensor) has no real value; the model returns \<open>NonFinite\<close> there and
  says nothing further about it. Operands of an elementwise operation have the same length,
  or one of them has length 1 and is broadcast; \<open>ShapeError\<close> otherwise. A class label
  outside a distribution's classes is \<open>InvalidArgument\<close>. Python's \<open>IndexError\<close>,
  \<open>ZeroDivisionError\<close> and \<open>ValueError\<close> are values of the same type.
\<close>

datatype error =
  IndexError | ZeroDivisionError | ValueError | ShapeError | InvalidArgument | NonFinite

definition bindE :: "error + 'a \<Rightarrow> ('a \<Rightarrow> error + 'b) \<Rightarrow> error + 'b" where
  "bindE m f = (case m of Inl e \<Rightarrow> Inl e | Inr x \<Rightarrow> f x)"

fun foldE :: "('a \<Rightarrow> 's \<Rightarrow> error + 's) \<Rightarrow> 'a list \<Rightarrow> 's \<Rightarrow> error + 's" where
  "foldE f [] s = Inr s"
| "foldE f (x # xs) s = (case f x s of Inl e \<Rightarrow> Inl e | Inr s' \<Rightarrow> foldE f xs s')"

definition elementwise :: "(real \<Rightarrow> real \<Rightarrow> real) \<Rightarrow> real list \<Rightarrow> real list \<Rightarrow> error + real list" where
  "elementwise f xs ys =
     (if length xs = length ys then Inr (map2 f xs ys)
      else if length xs = 1 then Inr (map (f (xs ! 0)) ys)
      else if length ys = 1 then Inr (map (\<lambda>x. f x (ys ! 0)) xs)
      else Inl ShapeError)"

definition tf_divide :: "real list \<Rightarrow> real list \<Rightarrow> error + real list" where
  "tf_divide xs ys = (if 0 \<in> set ys then Inl NonFinite else elementwise (/) xs ys)"

definition tf_multiply :: "real list \<Rightarrow> real list \<Rightarrow> error + real list" where
  "tf_multiply xs ys = elementwise (*) xs ys"

text \<open>
  A tensor of shape \<open>[M, 1]\<close> is the list of its \<open>M\<close> one-entry rows. A tensor of shape \<open>[N]\<close>
  minus one of shape \<open>[M, 1]\<close> is broadcast to shape \<open>[M, N]\<close>: entry \<open>(i, j)\<close> is the
  \<open>j\<close>-th of the first minus the \<open>i\<close>-th of the second.
\<close>

definition tf_subtract :: "real list \<Rightarrow> real list list \<Rightarrow> real list list" where
  "tf_subtract xs col = map (\<lambda>row. map (\<lambda>x. x - row ! 0) xs) col"

definition tf_minimum :: "real list \<Rightarrow> real list \<Rightarrow> error + real list" where
  "tf_minimum xs ys = elementwise min xs ys"

definition tf_clip_by_value :: "real list \<Rightarrow> real \<Rightarrow> real \<Rightarrow> real list" where
  "tf_clip_by_value t clip_value_min clip_value_max =
     map (\<lambda>x. min (max x clip_value_min) clip_value_max) t"

definition tf_square :: "real list \<Rightarrow> real list" where
  "tf_square t = map (\<lambda>x. x * x) t"

definition tf_reduce_mean :: "real list \<Rightarrow> error + real" where
  "tf_reduce_mean t = (if t = [] then Inl NonFinite else Inr (sum_list t / real (length t)))"

section \<open>The PPO agent and its collaborators\<close>

text \<open>
  The networks, the sampler, the gradient tape and the optimizers are external: they are
  parameters of the model. \<open>'o\<close> is one environment's observation, \<open>'w\<close> a network's
  trainable variables, \<open>'s\<close> an optimizer's state, \<open>'g\<close> the state of the random-number
  generator. \<open>tape_gradient loss w\<close> is the gradient at \<open>w\<close> of the loss recorded as a
  function of the variables it is asked for.
\<close>

record ('o, 'w, 's, 'g) backend =
  actor_call :: "'w \<Rightarrow> 'o \<Rightarrow> real list"
  critic_call :: "'w \<Rightarrow> 'o \<Rightarrow> real"
  categorical_sample :: "real list \<Rightarrow> 'g \<Rightarrow> nat \<times> 'g"
  tape_gradient :: "('w \<Rightarrow> error + real) \<Rightarrow> 'w \<Rightarrow> 'w"
  apply_gradients :: "'s \<Rightarrow> 'w \<Rightarrow> 'w \<Rightarrow> 's \<times> 'w"

record ('w, 's) ppo_agent =
  verbose :: nat
  gamma :: real
  lmbda :: real
  epsilon :: real
  lr :: real
  n_outputs :: nat
  actor :: 'w
  critic :: 'w
  optimizer_actor :: 's
  optimizer_critic :: 's

text \<open>
  \<open>tfd.Categorical(probs=p).prob(a)\<close>: the mass of class \<open>a\<close>, for \<open>p\<close> a probability
  vector as the distribution's contract asks; a label outside the classes is rejected.
\<close>

definition categorical_prob :: "real list \<Rightarrow> nat \<Rightarrow> error + real" where
  "categorical_prob p a = (if a < length p then Inr (p ! a) else Inl InvalidArgument)"

fun prob_batch :: "real list list \<Rightarrow> nat list \<Rightarrow> error + real list" where
  "prob_batch [] [] = Inr []"
| "prob_batch (p # ps) (a # as) =
     bindE (categorical_prob p a) (\<lambda>x. bindE (prob_batch ps as) (\<lambda>xs. Inr (x # xs)))"
| "prob_batch _ _ = Inl ShapeError"

fun sample_batch :: "(real list \<Rightarrow> 'g \<Rightarrow> nat \<times> 'g) \<Rightarrow> real list list \<Rightarrow> 'g \<Rightarrow> nat list \<times> 'g" where
  "sample_batch smp [] g = ([], g)"
| "sample_batch smp (p # ps) g =
     (let (a, g') = smp p g; (as, g'') = sample_batch smp ps g' in (a # as, g''))"

text \<open>
  \<open>get_value\<close>: the critic ends in \<open>Dense(1)\<close>, so for a batch of \<open>N\<close> observations its
  output has shape \<open>[N, 1]\<close>.
\<close>

definition get_value :: "('o, 'w, 's, 'g) backend \<Rightarrow> ('w, 's) ppo_agent \<Rightarrow> 'o list \<Rightarrow> real list list" where
  "get_value B self x = map (\<lambda>obs. [critic_call B (critic self) obs]) x"

text \<open>
  \<open>get_action\<close>: the batch \<open>x\<close> holds one observation per sample; the generator state is
  threaded through, and only \<open>probs.sample\<close> advances it.
\<close>

definition get_action ::
  "('o, 'w, 's, 'g) backend \<Rightarrow> ('w, 's) ppo_agent \<Rightarrow> 'o list \<Rightarrow> nat list option \<Rightarrow> 'g
     \<Rightarrow> error + ((nat list \<times> real list) \<times> 'g)" where
  "get_action B self x action g =
     (let logits = map (actor_call B (actor self)) x in
      case action of
        None \<Rightarrow>
          (let (action', g') = sample_batch (categorical_sample B) logits g in
           bindE (prob_batch logits action') (\<lambda>prob. Inr ((action', prob), g')))
      | Some a \<Rightarrow>
          bindE (prob_batch logits a) (\<lambda>prob. Inr ((a, prob), g)))"

section \<open>The PPO update step\<close>

text \<open>
  The two losses of \<open>train_step_ppo\<close>, as the tape records them. The minibatch's actions,
  advantages, probabilities and returns are flattened sequences, shape \<open>[N]\<close>, as indexing
  the flattened buffer gives them. \<open>new_value\<close> has shape \<open>[N, 1]\<close>, so \<open>returns - new_value\<close>
  has shape \<open>[N, N]\<close>; it is squared entry by entry, and \<open>tf.reduce_mean\<close> is the mean of
  all the entries.
\<close>

definition loss_clip ::
  "('o, 'w, 's, 'g) backend \<Rightarrow> ('w, 's) ppo_agent \<Rightarrow> 'g \<Rightarrow> 'o list \<Rightarrow> nat list \<Rightarrow> real list
     \<Rightarrow> real list \<Rightarrow> error + real" where
  "loss_clip B self g obs acts adv old_probs =
     bindE (get_action B self obs (Some acts) g) (\<lambda>((_, new_probs), _).
     bindE (tf_divide new_probs old_probs) (\<lambda>ratio.
     bindE (tf_multiply (tf_clip_by_value ratio (1 - epsilon self) (1 + epsilon self)) adv) (\<lambda>clip.
     bindE (tf_multiply ratio adv) (\<lambda>ratio_adv.
     bindE (tf_minimum ratio_adv clip) (\<lambda>loss_clip.
     bindE (tf_reduce_mean loss_clip) (\<lambda>mean. Inr (- mean)))))))"

definition loss_value ::
  "('o, 'w, 's, 'g) backend \<Rightarrow> ('w, 's) ppo_agent \<Rightarrow> 'o list \<Rightarrow> real list \<Rightarrow> error + real" where
  "loss_value B self obs rets =
     (let new_value = get_value B self obs in
      tf_reduce_mean (concat (map tf_square (tf_subtract rets new_value))))"

record 'o minibatch =
  mb_obs :: "'o list"
  mb_actions :: "nat list"
  mb_adv :: "real list"
  mb_probs :: "real list"
  mb_returns :: "real list"

text \<open>
  \<open>train_step_ppo\<close>: both losses are recorded on the tape, then each network's variables
  are updated by its own optimizer from the gradient of its own loss. The state is the
  agent and the generator; the result is the new state and the two losses.
\<close>

definition train_step_ppo ::
  "('o, 'w, 's, 'g) backend \<Rightarrow> 'o minibatch \<Rightarrow> ('w, 's) ppo_agent \<times> 'g
     \<Rightarrow> error + ((('w, 's) ppo_agent \<times> 'g) \<times> real \<times> real)" where
  "train_step_ppo B mb = (\<lambda>(self, g).
     bindE (loss_clip B self g (mb_obs mb) (mb_actions mb) (mb_adv mb) (mb_probs mb)) (\<lambda>l_clip.
     bindE (loss_value B self (mb_obs mb) (mb_returns mb)) (\<lambda>l_value.
       let grads_actor =
             tape_gradient B
               (\<lambda>w. loss_clip B (self\<lparr>actor := w\<rparr>) g (mb_obs mb) (mb_actions mb) (mb_adv mb) (mb_probs mb))
               (actor self);
           grads_critic =
             tape_gradient B
               (\<lambda>w. loss_value B (self\<lparr>critic := w\<rparr>) (mb_obs mb) (mb_returns mb))
               (critic self);
           (oa, wa) = apply_gradients B (optimizer_actor self) grads_actor (actor self);
           (oc, wc) = apply_gradients B (optimizer_critic self) grads_critic (critic self)
       in Inr ((self\<lparr>actor := wa, critic := wc, optimizer_actor := oa, optimizer_critic := oc\<rparr>, g),
               l_clip, l_value))))"


section \<open>The rollout buffer\<close>

text \<open>
  The buffer \<open>memory.Memory\<close> as \<open>play_n_timesteps\<close> uses it: a two-dimensional array is
  the list of its rows, one row per timestep and one entry per environment. The driver
  assigns \<open>advantages\<close> and \<open>returns\<close> afresh, one row per environment.
\<close>

record 'o memory =
  num_envs :: nat
  obss :: "'o list list"
  actions :: "nat list list"
  probs :: "real list list"
  rewards :: "real list list"
  terminateds :: "bool list list"
  truncateds :: "bool list list"
  "values" :: "real list list"
  advantages :: "real list list"
  returns :: "real list list"
  f_obss :: "'o list"
  f_actions :: "nat list"
  f_advantages :: "real list"
  f_probs :: "real list"
  f_returns :: "real list"

text \<open>\<open>a[t] = row\<close>: an index past the last row raises.\<close>

definition write_row :: "'a list \<Rightarrow> nat \<Rightarrow> 'a \<Rightarrow> error + 'a list" where
  "write_row a t row = (if t < length a then Inr (a[t := row]) else Inl IndexError)"

text \<open>\<open>a[:, j]\<close>: the column \<open>j\<close> of a two-dimensional array.\<close>

definition column :: "'a list list \<Rightarrow> nat \<Rightarrow> error + 'a list" where
  "column a j = (if list_all (\<lambda>row. j < length row) a then Inr (map (\<lambda>row. row ! j) a) else Inl IndexError)"

text \<open>\<open>a[ids]\<close> for an index array \<open>ids\<close>.\<close>

definition take_ids :: "'a list \<Rightarrow> nat list \<Rightarrow> error + 'a list" where
  "take_ids a ids = (if list_all (\<lambda>i. i < length a) ids then Inr (map (\<lambda>i. a ! i) ids) else Inl IndexError)"

text \<open>
  Modelled from the spec: \<open>Memory.flatten\<close> is in the buffer module, which is not among the
  sources. The spec has it collapse the time-by-environment layout into one sequence that
  keeps the fields of a sample at one index, sample \<open>(t, e)\<close> at \<open>t * E + e\<close>. The fields
  written by timestep are read row by row; \<open>advantages\<close> and \<open>returns\<close>, which the driver
  stores one row per environment, are read column by column to land on the same index.
\<close>

definition flatten :: "'o memory \<Rightarrow> 'o memory" where
  "flatten m =
     m\<lparr>f_obss := concat (obss m),
       f_actions := concat (actions m),
       f_probs := concat (probs m),
       f_advantages := concat (transpose (advantages m)),
       f_returns := concat (transpose (returns m))\<rparr>"

section \<open>The advantage and return estimators\<close>

definition continue :: "bool \<Rightarrow> bool \<Rightarrow> real" where
  "continue terminated truncated = (if terminated \<or> truncated then 0 else 1)"

text \<open>
  Modelled from the spec: \<open>utils.calc_adv_list\<close> is in the utilities module, which is not
  among the sources. The spec has it walk one environment's timesteps from the last, \<open>T\<close>,
  to the first, \<open>t\<close>, carrying the next value and the next advantage:
  \<open>delta = reward + gamma * next_value * continue - value\<close> and
  \<open>advantage = delta + gamma * lambda * continue * next_advantage\<close>, the next value of the
  last timestep being the bootstrap value. An index past a column's end is fatal.
\<close>

fun calc_adv_walk ::
  "nat \<Rightarrow> nat \<Rightarrow> real list \<Rightarrow> real list \<Rightarrow> real \<Rightarrow> real \<Rightarrow> bool list \<Rightarrow> bool list
     \<Rightarrow> real \<Rightarrow> real \<Rightarrow> real list \<Rightarrow> real list" where
  "calc_adv_walk t 0 r v g l te tr next_value next_advantage acc = acc"
| "calc_adv_walk t (Suc n) r v g l te tr next_value next_advantage acc =
     (let i = t + n;
          delta = r ! i + g * next_value * continue (te ! i) (tr ! i) - v ! i;
          advantage = delta + g * l * continue (te ! i) (tr ! i) * next_advantage
      in calc_adv_walk t n r v g l te tr (v ! i) advantage (advantage # acc))"

definition calc_adv_list ::
  "nat \<Rightarrow> nat \<Rightarrow> real list \<Rightarrow> real list \<Rightarrow> real \<Rightarrow> real \<Rightarrow> bool list \<Rightarrow> bool list \<Rightarrow> real
     \<Rightarrow> error + real list" where
  "calc_adv_list T t r v g l te tr next_val =
     (if T < length r \<and> T < length v \<and> T < length te \<and> T < length tr
      then Inr (calc_adv_walk t (Suc T - t) r v g l te tr next_val 0 [])
      else Inl IndexError)"

text \<open>
  Modelled from the spec: \<open>utils.calc_returns\<close> is in the utilities module, which is not
  among the sources. The spec has \<open>return = reward + gamma * continue * next_return\<close>,
  walking from the last timestep to the first, the return past the trajectory's end
  being 0.
\<close>

fun calc_returns_walk ::
  "nat \<Rightarrow> nat \<Rightarrow> real list \<Rightarrow> real \<Rightarrow> bool list \<Rightarrow> bool list \<Rightarrow> real \<Rightarrow> real list \<Rightarrow> real list" where
  "calc_returns_walk t 0 r g te tr next_return acc = acc"
| "calc_returns_walk t (Suc n) r g te tr next_return acc =
     (let i = t + n;
          ret = r ! i + g * continue (te ! i) (tr ! i) * next_return
      in calc_returns_walk t n r g te tr ret (ret # acc))"

definition calc_returns ::
  "nat \<Rightarrow> nat \<Rightarrow> real list \<Rightarrow> real \<Rightarrow> bool list \<Rightarrow> bool list \<Rightarrow> error + real list" where
  "calc_returns T t r g te tr =
     (if T < length r \<and> T < length te \<and> T < length tr
      then Inr (calc_returns_walk t (Suc T - t) r g te tr 0 [])
      else Inl IndexError)"


section \<open>The training driver\<close>

text \<open>
  The vectorized environment is external: \<open>reset\<close> and \<open>step\<close> are parameters, acting on
  an environment state \<open>'e\<close>. \<open>step\<close> takes one action per environment and gives the next
  observations, the rewards and the two flags, one entry per environment.
\<close>

record ('e, 'o) vector_env =
  reset :: "'e \<Rightarrow> 'o list \<times> 'e"
  step :: "'e \<Rightarrow> nat list \<Rightarrow> ('o list \<times> real list \<times> bool list \<times> bool list) \<times> 'e"

text \<open>
  What \<open>play_n_timesteps\<close> holds and mutates: the agent, the buffer, the current
  observation, the environment, the generator and the two lists it returns. \<open>np.mean\<close> of
  an empty list is NaN, \<open>None\<close> here. \<open>history\<close> is added for verification: the code keeps
  no such record. It lists, per rollout timestep, the observation handed to \<open>get_action\<close>
  and the actions and probabilities that call returned.
\<close>

record ('o, 'w, 's, 'e, 'g) driver =
  agent :: "('w, 's) ppo_agent"
  mem :: "'o memory"
  observation :: "'o list"
  env_state :: 'e
  rng :: 'g
  update_mean_actor_loss :: "real option list"
  update_mean_critic_loss :: "real option list"
  history :: "('o list \<times> nat list \<times> real list) list"

text \<open>The body of the timestep loop, lines 240 to 251.\<close>

definition rollout_step ::
  "('o, 'w, 's, 'g) backend \<Rightarrow> ('e, 'o) vector_env \<Rightarrow> nat \<Rightarrow> ('o, 'w, 's, 'e, 'g) driver
     \<Rightarrow> error + ('o, 'w, 's, 'e, 'g) driver" where
  "rollout_step B envs t d =
     (let m = mem d in
      bindE (write_row (obss m) t (observation d)) (\<lambda>obss'.
      bindE (get_action B (agent d) (observation d) None (rng d)) (\<lambda>((acts, prbs), g').
        let ((observation', reward, terminated, truncated), e') = step envs (env_state d) acts in
        bindE (write_row (actions m) t acts) (\<lambda>actions'.
        bindE (write_row (probs m) t prbs) (\<lambda>probs'.
        bindE (write_row (rewards m) t reward) (\<lambda>rewards'.
        bindE (write_row (terminateds m) t terminated) (\<lambda>terminateds'.
        bindE (write_row (truncateds m) t truncated) (\<lambda>truncateds'.
          Inr (d\<lparr>mem := m\<lparr>obss := obss', actions := actions', probs := probs',
                            rewards := rewards', terminateds := terminateds',
                            truncateds := truncateds'\<rparr>,
                  observation := observation',
                  env_state := e',
                  rng := g',
                  history := history d @ [(observation d, acts, prbs)]\<rparr>)))))))))"

text \<open>
  Lines 238 to 253: the timestep loop, then \<open>m.obss[t] = observation\<close> with the loop
  variable \<open>t\<close> left at its last value, \<open>single_batch_ts - 1\<close> (the loop has run at least
  once: \<open>play_n_timesteps\<close> divides by \<open>single_batch_ts\<close> before it).
\<close>

definition rollout ::
  "('o, 'w, 's, 'g) backend \<Rightarrow> ('e, 'o) vector_env \<Rightarrow> nat \<Rightarrow> ('o, 'w, 's, 'e, 'g) driver
     \<Rightarrow> error + ('o, 'w, 's, 'e, 'g) driver" where
  "rollout B envs single_batch_ts d =
     bindE (foldE (rollout_step B envs) [0..<single_batch_ts] d) (\<lambda>d.
     let t = single_batch_ts - 1 in
     bindE (write_row (obss (mem d)) t (observation d)) (\<lambda>obss'.
       Inr (d\<lparr>mem := (mem d)\<lparr>obss := obss'\<rparr>\<rparr>)))"

text \<open>
  The first \<open>k\<close> rows of the buffer are paired with the history of the rollout that began
  at history length \<open>h\<close>: row \<open>t\<close> holds the observation handed to \<open>get_action\<close> at
  timestep \<open>t\<close> and the actions and probabilities that call returned.
\<close>

definition paired_upto :: "nat \<Rightarrow> nat \<Rightarrow> ('o, 'w, 's, 'e, 'g) driver \<Rightarrow> bool" where
  "paired_upto h k d \<longleftrightarrow>
     length (history d) = h + k \<and>
     (\<forall>t<k. history d ! (h + t) = (obss (mem d) ! t, actions (mem d) ! t, probs (mem d) ! t))"

fun mapE :: "('a \<Rightarrow> error + 'b) \<Rightarrow> 'a list \<Rightarrow> error + 'b list" where
  "mapE f [] = Inr []"
| "mapE f (x # xs) = bindE (f x) (\<lambda>y. bindE (mapE f xs) (\<lambda>ys. Inr (y # ys)))"

text \<open>
  \<open>next_val[env_id]\<close> after \<open>get_value(observation).numpy().squeeze()\<close>: the critic's
  output has one one-entry row per environment, and \<open>squeeze\<close> drops the axes of length 1;
  with a single environment it leaves a zero-dimensional array, which cannot be indexed.
\<close>

definition squeezed_index :: "real list list \<Rightarrow> nat \<Rightarrow> error + real" where
  "squeezed_index next_val env_id =
     (if length next_val = 1 \<or> length next_val \<le> env_id then Inl IndexError
      else Inr (next_val ! env_id ! 0))"

text \<open>Lines 259 and 260, and lines 262 and 263.\<close>

definition compute_advantages ::
  "('w, 's) ppo_agent \<Rightarrow> nat \<Rightarrow> 'o memory \<Rightarrow> real list list \<Rightarrow> error + real list list" where
  "compute_advantages self single_batch_ts m next_val =
     mapE (\<lambda>env_id.
        bindE (column (rewards m) env_id) (\<lambda>r.
        bindE (column (values m) env_id) (\<lambda>v.
        bindE (column (terminateds m) env_id) (\<lambda>te.
        bindE (column (truncateds m) env_id) (\<lambda>tr.
        bindE (squeezed_index next_val env_id) (\<lambda>nv.
          calc_adv_list (single_batch_ts - 1) 0 r v (gamma self) (lmbda self) te tr nv))))))
       [0..<num_envs m]"

definition compute_returns ::
  "('w, 's) ppo_agent \<Rightarrow> nat \<Rightarrow> 'o memory \<Rightarrow> error + real list list" where
  "compute_returns self single_batch_ts m =
     mapE (\<lambda>env_id.
        bindE (column (rewards m) env_id) (\<lambda>r.
        bindE (column (terminateds m) env_id) (\<lambda>te.
        bindE (column (truncateds m) env_id) (\<lambda>tr.
          calc_returns (single_batch_ts - 1) 0 r (gamma self) te tr))))
       [0..<num_envs m]"

text \<open>Lines 256 to 265: the bootstrap value, the advantages, the returns, the flattening.\<close>

definition estimate ::
  "('o, 'w, 's, 'g) backend \<Rightarrow> nat \<Rightarrow> ('o, 'w, 's, 'e, 'g) driver
     \<Rightarrow> error + ('o, 'w, 's, 'e, 'g) driver" where
  "estimate B single_batch_ts d =
     (let next_val = get_value B (agent d) (observation d) in
      bindE (compute_advantages (agent d) single_batch_ts (mem d) next_val) (\<lambda>advantages'.
      bindE (compute_returns (agent d) single_batch_ts ((mem d)\<lparr>advantages := advantages'\<rparr>)) (\<lambda>returns'.
        Inr (d\<lparr>mem := flatten ((mem d)\<lparr>advantages := advantages', returns := returns'\<rparr>)\<rparr>))))"

text \<open>
  Lines 270 to 288. The update step is a parameter \<open>train\<close> acting on a state \<open>'t\<close>, so
  that the loop can be run with \<open>train_step_ppo\<close> or with a step that only records the
  minibatches it is given.
\<close>

definition minibatch_at :: "'o memory \<Rightarrow> nat list \<Rightarrow> error + 'o minibatch" where
  "minibatch_at m ids =
     bindE (take_ids (f_obss m) ids) (\<lambda>obs.
     bindE (take_ids (f_actions m) ids) (\<lambda>acts.
     bindE (take_ids (f_advantages m) ids) (\<lambda>adv.
     bindE (take_ids (f_probs m) ids) (\<lambda>prbs.
     bindE (take_ids (f_returns m) ids) (\<lambda>rets.
       Inr \<lparr>mb_obs = obs, mb_actions = acts, mb_adv = adv, mb_probs = prbs, mb_returns = rets\<rparr>)))))"

definition minibatch_step ::
  "('o minibatch \<Rightarrow> 't \<Rightarrow> error + ('t \<times> real \<times> real)) \<Rightarrow> 'o memory \<Rightarrow> nat list \<Rightarrow> nat
     \<Rightarrow> 't \<times> real list \<times> real list \<Rightarrow> error + ('t \<times> real list \<times> real list)" where
  "minibatch_step train m ids mb = (\<lambda>(s, mb_actor_loss_l, mb_critic_loss_l).
     bindE (minibatch_at m ids) (\<lambda>batch.
     bindE (train batch s) (\<lambda>(s', loss_actor, loss_value).
       Inr (s', mb_actor_loss_l @ [loss_actor], mb_critic_loss_l @ [loss_value]))))"

definition epoch_step ::
  "('o minibatch \<Rightarrow> 't \<Rightarrow> error + ('t \<times> real \<times> real)) \<Rightarrow> 'o memory \<Rightarrow> nat \<Rightarrow> nat
     \<Rightarrow> 't \<times> real list \<times> real list \<Rightarrow> error + ('t \<times> real list \<times> real list)" where
  "epoch_step train m minibatch_size epoch acc =
     (let start_ind = epoch * minibatch_size;
          end_ind = start_ind + minibatch_size;
          ids = [start_ind..<end_ind]
      in foldE (minibatch_step train m ids) [0..<minibatch_size] acc)"

definition epoch_loop ::
  "('o minibatch \<Rightarrow> 't \<Rightarrow> error + ('t \<times> real \<times> real)) \<Rightarrow> 'o memory \<Rightarrow> nat \<Rightarrow> nat \<Rightarrow> 't
     \<Rightarrow> error + ('t \<times> real list \<times> real list)" where
  "epoch_loop train m minibatch_size epochs s =
     foldE (epoch_step train m minibatch_size) [0..<epochs] (s, [], [])"

definition np_mean :: "real list \<Rightarrow> real option" where
  "np_mean xs = (if xs = [] then None else Some (sum_list xs / real (length xs)))"

text \<open>Lines 267 to 291.\<close>

definition optimize ::
  "('o, 'w, 's, 'g) backend \<Rightarrow> nat \<Rightarrow> nat \<Rightarrow> ('o, 'w, 's, 'e, 'g) driver
     \<Rightarrow> error + ('o, 'w, 's, 'e, 'g) driver" where
  "optimize B minibatch_size epochs d =
     bindE (epoch_loop (train_step_ppo B) (mem d) minibatch_size epochs (agent d, rng d))
       (\<lambda>((self', g'), mb_actor_loss_l, mb_critic_loss_l).
          Inr (d\<lparr>agent := self', rng := g',
                  update_mean_actor_loss := update_mean_actor_loss d @ [np_mean mb_actor_loss_l],
                  update_mean_critic_loss := update_mean_critic_loss d @ [np_mean mb_critic_loss_l]\<rparr>))"

text \<open>One pass of the update loop, lines 238 to 291.\<close>

definition update_cycle ::
  "('o, 'w, 's, 'g) backend \<Rightarrow> ('e, 'o) vector_env \<Rightarrow> nat \<Rightarrow> nat \<Rightarrow> nat \<Rightarrow> nat
     \<Rightarrow> ('o, 'w, 's, 'e, 'g) driver \<Rightarrow> error + ('o, 'w, 's, 'e, 'g) driver" where
  "update_cycle B envs single_batch_ts minibatch_size epochs update d =
     bindE (rollout B envs single_batch_ts d) (\<lambda>d.
     bindE (estimate B single_batch_ts d) (\<lambda>d.
     optimize B minibatch_size epochs d))"

text \<open>
  \<open>play_n_timesteps\<close>: the numbers are naturals. Its result is the driver's final state,
  which holds the two lists the code returns and the buffer and agent it has mutated.
\<close>

definition play_n_timesteps ::
  "('o, 'w, 's, 'g) backend \<Rightarrow> ('e, 'o) vector_env \<Rightarrow> ('w, 's) ppo_agent \<Rightarrow> 'e \<Rightarrow> 'g \<Rightarrow> 'o memory
     \<Rightarrow> nat \<Rightarrow> nat \<Rightarrow> nat \<Rightarrow> nat \<Rightarrow> error + ('o, 'w, 's, 'e, 'g) driver" where
  "play_n_timesteps B envs self e g m t_timesteps single_batch_ts minibatch_size epochs =
     (if single_batch_ts = 0 then Inl ZeroDivisionError
      else
        let updates = t_timesteps div single_batch_ts;
            (observation0, e') = reset envs e
        in foldE (update_cycle B envs single_batch_ts minibatch_size epochs) [0..<updates]
             \<lparr>agent = self, mem = m, observation = observation0, env_state = e', rng = g,
              update_mean_actor_loss = [], update_mean_critic_loss = [], history = []\<rparr>)"

section \<open>The DQN agent's policy\<close>

text \<open>
  A random choice among finitely many outcomes is the list of the outcomes with their
  probabilities. \<open>np.random.randint(n)\<close> is uniform on \<open>0, ..., n - 1\<close> and raises for
  \<open>n = 0\<close>. The draw of \<open>np.random.rand()\<close> is an argument, \<open>u\<close>. \<open>np.argmax\<close> gives the
  first index of the greatest entry and raises on an empty array.
\<close>

type_synonym 'a dist = "('a \<times> real) list"

definition np_random_randint :: "nat \<Rightarrow> error + nat dist" where
  "np_random_randint n =
     (if n = 0 then Inl ValueError else Inr (map (\<lambda>k. (k, 1 / real n)) [0..<n]))"

definition np_argmax :: "real list \<Rightarrow> error + nat" where
  "np_argmax q =
     (if q = [] then Inl ValueError
      else Inr (hd (filter (\<lambda>i. q ! i = Max (set q)) [0..<length q])))"

record ('o, 'w) dqn_agent =
  dqn_n_outputs :: nat
  discount :: real
  dqn_model :: 'w
  dqn_predict :: "'w \<Rightarrow> 'o \<Rightarrow> real list"

definition epsilon_greedy_policy ::
  "('o, 'w) dqn_agent \<Rightarrow> 'o \<Rightarrow> real \<Rightarrow> real \<Rightarrow> error + nat dist" where
  "epsilon_greedy_policy self state eps u =
     (if u < eps then np_random_randint 3
      else
        let q_values = dqn_predict self (dqn_model self) state in
        bindE (np_argmax q_values) (\<lambda>a. Inr [(a, 1)]))"


section \<open>The losses as the specification words them\<close>

definition clip :: "real \<Rightarrow> real \<Rightarrow> real \<Rightarrow> real" where
  "clip r lo hi = min (max r lo) hi"

definition mean :: "real list \<Rightarrow> real" where
  "mean xs = sum_list xs / real (length xs)"

definition L_clip :: "real \<Rightarrow> real list \<Rightarrow> real list \<Rightarrow> real list \<Rightarrow> real" where
  "L_clip eps new_probability old_probability advantage =
     - mean (map (\<lambda>i. let r = new_probability ! i / old_probability ! i
                       in min (r * advantage ! i) (clip r (1 - eps) (1 + eps) * advantage ! i))
                 [0..<length advantage])"

definition mean_squared_error :: "real list \<Rightarrow> real list \<Rightarrow> real" where
  "mean_squared_error predicted stored =
     mean (map (\<lambda>i. (predicted ! i - stored ! i)\<^sup>2) [0..<length stored])"

text \<open>The probability the current policy gives each stored action, sample by sample.\<close>

definition new_probability ::
  "('o, 'w, 's, 'g) backend \<Rightarrow> ('w, 's) ppo_agent \<Rightarrow> 'o list \<Rightarrow> nat list \<Rightarrow> real list" where
  "new_probability B self obs acts =
     map (\<lambda>i. actor_call B (actor self) (obs ! i) ! (acts ! i)) [0..<length acts]"

text \<open>One action per observation, each a class of that observation's distribution.\<close>

definition valid_actions ::
  "('o, 'w, 's, 'g) backend \<Rightarrow> ('w, 's) ppo_agent \<Rightarrow> 'o list \<Rightarrow> nat list \<Rightarrow> bool" where
  "valid_actions B self obs acts \<longleftrightarrow>
     length acts = length obs \<and>
     list_all (\<lambda>i. acts ! i < length (actor_call B (actor self) (obs ! i))) [0..<length obs]"

section \<open>Concrete collaborators for the worked examples\<close>

text \<open>
  A two-class policy with one weight, a linear critic, a sampler that cycles through the
  classes, a finite difference for the tape and a plain descent step for the optimizers.
\<close>

definition example_backend :: "(nat, real, nat, nat) backend" where
  "example_backend =
     \<lparr>actor_call = (\<lambda>w obs. [w, 1 - w]),
      critic_call = (\<lambda>w obs. w * real obs),
      categorical_sample = (\<lambda>p g. (g mod length p, Suc g)),
      tape_gradient = (\<lambda>loss w. case (loss (w + 1), loss w) of (Inr b, Inr a) \<Rightarrow> b - a | _ \<Rightarrow> 0),
      apply_gradients = (\<lambda>s grad w. (Suc s, w - grad / 10))\<rparr>"

definition example_agent :: "(real, nat) ppo_agent" where
  "example_agent =
     \<lparr>verbose = 0, gamma = 9 / 10, lmbda = 1 / 2, epsilon = 1 / 5, lr = 1 / 1000,
      n_outputs = 2, actor = 1 / 2, critic = 1, optimizer_actor = 0, optimizer_critic = 0\<rparr>"

definition example_minibatch :: "nat minibatch" where
  "example_minibatch =
     \<lparr>mb_obs = [1, 2], mb_actions = [0, 1], mb_adv = [1, - 1], mb_probs = [1 / 2, 1 / 4],
      mb_returns = [2, 4]\<rparr>"

definition unit_ratio_minibatch :: "nat minibatch" where
  "unit_ratio_minibatch =
     \<lparr>mb_obs = [1, 2], mb_actions = [0, 1], mb_adv = [1, - 3], mb_probs = [1 / 2, 1 / 2],
      mb_returns = [2, 3]\<rparr>"

text \<open>
  Two environments whose observations count the steps taken, and a buffer of two
  timesteps by two environments holding earlier contents.
\<close>

definition example_envs :: "(nat, nat) vector_env" where
  "example_envs =
     \<lparr>reset = (\<lambda>e. ([0, 10], 0)),
      step = (\<lambda>e acts. (([Suc e, Suc e + 10], [1, 2], [False, False], [False, False]), Suc e))\<rparr>"

definition example_memory :: "nat memory" where
  "example_memory =
     \<lparr>num_envs = 2,
      obss = [[0, 0], [0, 0]],
      actions = [[0, 0], [0, 0]],
      probs = [[0, 0], [0, 0]],
      rewards = [[1, 2], [3, 4]],
      terminateds = [[False, True], [False, False]],
      truncateds = [[False, False], [False, False]],
      values = [[5, 6], [7, 8]],
      advantages = [],
      returns = [],
      f_obss = [], f_actions = [], f_advantages = [], f_probs = [], f_returns = []\<rparr>"

definition example_driver :: "(nat, real, nat, nat, nat) driver" where
  "example_driver =
     \<lparr>agent = example_agent, mem = example_memory, observation = [0, 10], env_state = 0,
      rng = 0, update_mean_actor_loss = [], update_mean_critic_loss = [], history = []\<rparr>"

text \<open>
  A flattened buffer whose observation at index \<open>i\<close> is \<open>i\<close> itself, and an update step
  that only records the observations of the minibatch it is given.
\<close>

definition index_memory :: "nat \<Rightarrow> nat memory" where
  "index_memory n =
     example_memory\<lparr>f_obss := [0..<n], f_actions := replicate n 0, f_advantages := replicate n 0,
                    f_probs := replicate n 1, f_returns := replicate n 0\<rparr>"

definition record_step :: "nat minibatch \<Rightarrow> nat list list \<Rightarrow> error + (nat list list \<times> real \<times> real)" where
  "record_step batch consumed = Inr (consumed @ [mb_obs batch], 0, 0)"

definition example_dqn :: "(nat, real) dqn_agent" where
  "example_dqn =
     \<lparr>dqn_n_outputs = 2, discount = 9 / 10, dqn_model = 1,
      dqn_predict = (\<lambda>w s. [w * real s, w])\<rparr>"


section \<open>Results of fallible steps\<close>

lemma bindE_Inr [simp]: "bindE (Inr x) f = f x"
  by (simp add: bindE_def)

lemma bindE_Inl [simp]: "bindE (Inl e) f = Inl e"
  by (simp add: bindE_def)

lemma bindE_eq_Inr: "bindE m f = Inr y \<longleftrightarrow> (\<exists>x. m = Inr x \<and> f x = Inr y)"
  by (cases m) auto

lemma mapE_Inr:
  "mapE f xs = Inr ys \<Longrightarrow> length ys = length xs \<and> (\<forall>i<length xs. f (xs ! i) = Inr (ys ! i))"
proof (induction xs arbitrary: ys)
  case Nil
  then show ?case by simp
next
  case (Cons x xs)
  from Cons.prems obtain y ys' where y: "f x = Inr y" and ys': "mapE f xs = Inr ys'"
    and ys: "ys = y # ys'"
    by (auto simp: bindE_eq_Inr)
  from Cons.IH[OF ys'] have len: "length ys' = length xs"
    and nth: "\<forall>i<length xs. f (xs ! i) = Inr (ys' ! i)" by simp_all
  show ?case
  proof (intro conjI allI impI)
    show "length ys = length (x # xs)" using ys len by simp
  next
    fix i assume "i < length (x # xs)"
    then show "f ((x # xs) ! i) = Inr (ys ! i)"
      using y nth ys by (cases i) simp_all
  qed
qed

lemma column_Inr:
  "column a j = Inr c \<Longrightarrow> length c = length a \<and> (\<forall>t<length a. c ! t = a ! t ! j)"
  by (auto simp: column_def split: if_splits)

lemma write_row_Inr: "write_row a t row = Inr a' \<Longrightarrow> t < length a \<and> a' = a[t := row]"
  by (auto simp: write_row_def split: if_splits)

lemma foldE_invariant:
  assumes step: "\<And>x s s'. P s \<Longrightarrow> f x s = Inr s' \<Longrightarrow> P s'"
  shows "P s \<Longrightarrow> foldE f xs s = Inr s' \<Longrightarrow> P s'"
proof (induction xs arbitrary: s)
  case Nil
  then show ?case by simp
next
  case (Cons x xs)
  from Cons.prems(2) obtain s1 where s1: "f x s = Inr s1" and rest: "foldE f xs s1 = Inr s'"
    by (auto split: sum.splits)
  from step[OF Cons.prems(1) s1] have "P s1" .
  then show ?case using rest by (rule Cons.IH)
qed


lemma foldE_snoc: "foldE f (xs @ [x]) s = bindE (foldE f xs s) (f x)"
  by (induction xs arbitrary: s) (auto simp: bindE_def split: sum.splits)

lemma foldE_upt_invariant:
  assumes step: "\<And>k s s'. k < n \<Longrightarrow> P k s \<Longrightarrow> f k s = Inr s' \<Longrightarrow> P (Suc k) s'"
  shows "P 0 s \<Longrightarrow> foldE f [0..<n] s = Inr s' \<Longrightarrow> P n s'"
  using step
proof (induction n arbitrary: s')
  case 0
  then show ?case by simp
next
  case (Suc n)
  from Suc.prems(2) obtain s1 where s1: "foldE f [0..<n] s = Inr s1" and last: "f n s1 = Inr s'"
    by (auto simp: foldE_snoc bindE_eq_Inr)
  have "P n s1"
    using Suc.IH[OF Suc.prems(1) s1] Suc.prems(3) by simp
  with last show ?case using Suc.prems(3)[of n s1 s'] by simp
qed

section \<open>The policy wrapper and the update step\<close>

lemma prob_batch_Inr:
  "length as = length ps \<Longrightarrow> \<forall>i<length ps. as ! i < length (ps ! i) \<Longrightarrow>
   prob_batch ps as = Inr (map (\<lambda>i. ps ! i ! (as ! i)) [0..<length as])"
proof (induction ps as rule: prob_batch.induct)
  case 1
  then show ?case by simp
next
  case (2 p ps a as)
  from 2(3) have hd: "a < length p" and tl: "\<forall>i<length ps. as ! i < length (ps ! i)"
    by auto
  from 2(2) have len: "length as = length ps" by simp
  have "prob_batch ps as = Inr (map (\<lambda>i. ps ! i ! (as ! i)) [0..<length as])"
    using 2(1) len tl by blast
  moreover have "map (\<lambda>i. (p # ps) ! i ! ((a # as) ! i)) [0..<length (a # as)]
      = p ! a # map (\<lambda>i. ps ! i ! (as ! i)) [0..<length as]"
    by (simp only: length_Cons map_upt_Suc nth_Cons_0 nth_Cons_Suc)
  ultimately show ?case using hd by (simp add: categorical_prob_def del: upt_Suc)
qed simp_all

lemma get_action_Some:
  assumes "valid_actions B self obs acts"
  shows "get_action B self obs (Some acts) g = Inr ((acts, new_probability B self obs acts), g)"
proof -
  from assms have len: "length acts = length obs"
    and rng: "\<forall>i<length obs. acts ! i < length (actor_call B (actor self) (obs ! i))"
    by (auto simp: valid_actions_def list_all_iff)
  have "prob_batch (map (actor_call B (actor self)) obs) acts =
      Inr (map (\<lambda>i. map (actor_call B (actor self)) obs ! i ! (acts ! i)) [0..<length acts])"
    by (rule prob_batch_Inr) (use len rng in auto)
  also have "map (\<lambda>i. map (actor_call B (actor self)) obs ! i ! (acts ! i)) [0..<length acts]
     = new_probability B self obs acts"
    unfolding new_probability_def using len by (intro map_cong) auto
  finally show ?thesis by (simp add: get_action_def)
qed

lemma loss_clip_eq:
  assumes va: "valid_actions B self obs acts"
    and la: "length adv = length obs" and lp: "length old_probs = length obs"
    and ne: "obs \<noteq> []" and nz: "0 \<notin> set old_probs"
  shows "loss_clip B self g obs acts adv old_probs =
     Inr (L_clip (epsilon self) (new_probability B self obs acts) old_probs adv)"
proof -
  let ?new = "new_probability B self obs acts"
  have ln: "length ?new = length obs"
    using va by (simp add: new_probability_def valid_actions_def)
  let ?ratio = "map2 (/) ?new old_probs"
  have r: "tf_divide ?new old_probs = Inr ?ratio"
    using nz ln lp by (simp add: tf_divide_def elementwise_def)
  have lr: "length ?ratio = length obs" using ln lp by simp
  let ?clipped = "tf_clip_by_value ?ratio (1 - epsilon self) (1 + epsilon self)"
  have lc: "length ?clipped = length obs" using lr by (simp add: tf_clip_by_value_def)
  let ?out = "map2 min (map2 (*) ?ratio adv) (map2 (*) ?clipped adv)"
  have lo: "length ?out = length obs" using lr lc la by simp
  have out_ne: "?out \<noteq> []" using lo ne by (metis length_0_conv)
  have eq: "?out = map (\<lambda>i. let r = ?new ! i / old_probs ! i
                       in min (r * adv ! i) (clip r (1 - epsilon self) (1 + epsilon self) * adv ! i))
                 [0..<length adv]"
    by (rule nth_equalityI) (use lo la ln lp in \<open>auto simp: tf_clip_by_value_def clip_def Let_def\<close>)
  have "loss_clip B self g obs acts adv old_probs = Inr (- (sum_list ?out / real (length ?out)))"
    unfolding loss_clip_def get_action_Some[OF va]
    using r lr lc la out_ne
    by (simp add: tf_multiply_def tf_minimum_def elementwise_def tf_reduce_mean_def)
  then show ?thesis
    unfolding L_clip_def mean_def eq[symmetric] .
qed

lemma loss_value_Inr:
  assumes "obs \<noteq> []" and "rets \<noteq> []"
  shows "\<exists>lv. loss_value B self obs rets = Inr lv"
proof -
  from assms obtain o1 os r1 rs where "obs = o1 # os" "rets = r1 # rs"
    by (metis list.exhaust)
  then show ?thesis
    by (simp add: loss_value_def get_value_def tf_subtract_def tf_square_def tf_reduce_mean_def)
qed

lemma sum_list_concat_map:
  fixes f :: "'a \<Rightarrow> real list"
  shows "sum_list (concat (map f xs)) = (\<Sum>x\<leftarrow>xs. sum_list (f x))"
  by (induction xs) simp_all

lemma loss_value_pairs:
  assumes "obs \<noteq> []" and "rets \<noteq> []"
  shows "loss_value B self obs rets =
     Inr ((\<Sum>obs\<leftarrow>obs. \<Sum>r\<leftarrow>rets. (r - critic_call B (critic self) obs)\<^sup>2)
            / real (length obs * length rets))"
proof -
  let ?sq = "concat (map tf_square (tf_subtract rets (get_value B self obs)))"
  have len: "length ?sq = length obs * length rets"
    by (simp add: tf_square_def tf_subtract_def get_value_def length_concat comp_def sum_list_triv)
  have sum: "sum_list ?sq = (\<Sum>obs\<leftarrow>obs. \<Sum>r\<leftarrow>rets. (r - critic_call B (critic self) obs)\<^sup>2)"
    by (simp add: tf_square_def tf_subtract_def get_value_def map_concat sum_list_concat_map
        comp_def power2_eq_square)
  from assms have "length obs * length rets \<noteq> 0" by simp
  with len have "?sq \<noteq> []" by (metis length_0_conv)
  then show ?thesis
    by (simp add: loss_value_def Let_def tf_reduce_mean_def len sum)
qed

lemma loss_clip_reads:
  "actor s1 = actor s2 \<Longrightarrow> epsilon s1 = epsilon s2 \<Longrightarrow>
   loss_clip B s1 g1 obs acts adv old_probs = loss_clip B s2 g2 obs acts adv old_probs"
  by (simp add: loss_clip_def get_action_def bindE_def split: sum.splits)

lemma loss_value_reads:
  "critic s1 = critic s2 \<Longrightarrow> loss_value B s1 obs rets = loss_value B s2 obs rets"
  by (simp add: loss_value_def get_value_def)

lemma train_step_ppo_result:
  assumes "valid_actions B self (mb_obs mb) (mb_actions mb)"
    and "length (mb_adv mb) = length (mb_obs mb)"
    and "length (mb_probs mb) = length (mb_obs mb)"
    and "mb_returns mb \<noteq> []"
    and "mb_obs mb \<noteq> []"
    and "0 \<notin> set (mb_probs mb)"
  shows "\<exists>st' lv. train_step_ppo B mb (self, g) =
           Inr (st',
                L_clip (epsilon self) (new_probability B self (mb_obs mb) (mb_actions mb))
                  (mb_probs mb) (mb_adv mb),
                lv)"
proof -
  from loss_value_Inr[OF assms(5,4)] obtain lv where
    "loss_value B self (mb_obs mb) (mb_returns mb) = Inr lv" by blast
  then show ?thesis
    unfolding train_step_ppo_def
    by (simp add: loss_clip_eq[OF assms(1,2,3,5,6)] Let_def split: prod.splits)
qed

lemma sample_batch_length: "length (fst (sample_batch smp ps g)) = length ps"
proof (induction ps arbitrary: g)
  case Nil
  then show ?case by simp
next
  case (Cons p ps)
  obtain a g' where a: "smp p g = (a, g')" by (cases "smp p g")
  obtain as g'' where as: "sample_batch smp ps g' = (as, g'')" by (cases "sample_batch smp ps g'")
  from Cons.IH[of g'] as have "length as = length ps" by simp
  with a as show ?case by simp
qed

lemma sample_batch_range:
  "\<forall>p\<in>set ps. \<forall>g. fst (smp p g) < length p \<Longrightarrow>
   i < length ps \<Longrightarrow> fst (sample_batch smp ps g) ! i < length (ps ! i)"
proof (induction ps arbitrary: g i)
  case Nil
  then show ?case by simp
next
  case (Cons p ps)
  obtain a g' where a: "smp p g = (a, g')" by (cases "smp p g")
  obtain as g'' where as: "sample_batch smp ps g' = (as, g'')" by (cases "sample_batch smp ps g'")
  show ?case
  proof (cases i)
    case 0
    from Cons.prems(1) have "fst (smp p g) < length p" by simp
    with a as 0 show ?thesis by simp
  next
    case (Suc j)
    with Cons.prems have "fst (sample_batch smp ps g') ! j < length (ps ! j)"
      by (intro Cons.IH) auto
    with a as Suc show ?thesis by simp
  qed
qed

text \<open>
  Claim C5. The policy loss is the clipped surrogate objective, as claimed. The value loss
  is not the mean squared error: for two samples with critic values 1 and 2 and stored
  returns 2 and 4 the mean squared error is 5 / 2, and \<open>train_step_ppo\<close> returns 7 / 2, the
  mean of the squared differences over all four pairs of a return and a value.
\<close>

theorem train_step_ppo_value_loss_pairs:
  "train_step_ppo example_backend example_minibatch (example_agent, 0) =
     Inr ((example_agent\<lparr>actor := 57 / 100, critic := 23 / 20,
             optimizer_actor := 1, optimizer_critic := 1\<rparr>, 0), 1 / 2, 7 / 2)
   \<and> L_clip (epsilon example_agent)
         (new_probability example_backend example_agent (mb_obs example_minibatch)
            (mb_actions example_minibatch))
         (mb_probs example_minibatch) (mb_adv example_minibatch) = 1 / 2
   \<and> get_value example_backend example_agent (mb_obs example_minibatch) = [[1], [2]]
   \<and> mb_returns example_minibatch = [2, 4]
   \<and> mean_squared_error [1, 2] [2, 4] = 5 / 2"
proof (intro conjI)
  show "train_step_ppo example_backend example_minibatch (example_agent, 0) =
     Inr ((example_agent\<lparr>actor := 57 / 100, critic := 23 / 20,
             optimizer_actor := 1, optimizer_critic := 1\<rparr>, 0), 1 / 2, 7 / 2)"
    by (simp add: train_step_ppo_def loss_clip_def loss_value_def get_action_def get_value_def
        categorical_prob_def tf_divide_def tf_multiply_def tf_subtract_def tf_minimum_def
        tf_clip_by_value_def tf_square_def tf_reduce_mean_def elementwise_def
        example_backend_def example_agent_def example_minibatch_def Let_def)
  show "L_clip (epsilon example_agent)
         (new_probability example_backend example_agent (mb_obs example_minibatch)
            (mb_actions example_minibatch))
         (mb_probs example_minibatch) (mb_adv example_minibatch) = 1 / 2"
    by (simp add: L_clip_def mean_def clip_def new_probability_def example_backend_def
        example_agent_def example_minibatch_def upt_conv_Cons)
  show "get_value example_backend example_agent (mb_obs example_minibatch) = [[1], [2]]"
    by (simp add: get_value_def example_backend_def example_agent_def example_minibatch_def)
  show "mb_returns example_minibatch = [2, 4]"
    by (simp add: example_minibatch_def)
  show "mean_squared_error [1, 2] [2, 4] = 5 / 2"
    by (simp add: mean_squared_error_def mean_def upt_conv_Cons)
qed

text \<open>
  Claim C6. When the recomputed probability of every stored action equals the stored old
  probability (all nonzero, so the ratio is exactly 1) and \<open>0 \<le> epsilon\<close>, the policy loss
  of \<open>train_step_ppo\<close> is \<open>- mean advantage\<close>, whatever \<open>epsilon\<close> is.
\<close>

theorem loss_clip_ratio_one:
  assumes va: "valid_actions B self (mb_obs mb) (mb_actions mb)"
    and la: "length (mb_adv mb) = length (mb_obs mb)"
    and lp: "length (mb_probs mb) = length (mb_obs mb)"
    and lr: "mb_returns mb \<noteq> []"
    and ne: "mb_obs mb \<noteq> []"
    and same: "new_probability B self (mb_obs mb) (mb_actions mb) = mb_probs mb"
    and nz: "0 \<notin> set (mb_probs mb)"
    and eps: "0 \<le> epsilon self"
  shows "\<exists>st' lv. train_step_ppo B mb (self, g) = Inr (st', - mean (mb_adv mb), lv)"
proof -
  let ?adv = "mb_adv mb" and ?p = "mb_probs mb"
  have "(let r = ?p ! i / ?p ! i
         in min (r * ?adv ! i) (clip r (1 - epsilon self) (1 + epsilon self) * ?adv ! i)) = ?adv ! i"
    if "i < length ?adv" for i
  proof -
    from that la lp have "?p ! i \<in> set ?p" by simp
    with nz have "?p ! i \<noteq> 0" by metis
    then have "?p ! i / ?p ! i = 1" by simp
    moreover have "clip 1 (1 - epsilon self) (1 + epsilon self) = 1"
      using eps by (simp add: clip_def)
    ultimately show ?thesis by simp
  qed
  then have "map (\<lambda>i. let r = ?p ! i / ?p ! i
         in min (r * ?adv ! i) (clip r (1 - epsilon self) (1 + epsilon self) * ?adv ! i)) [0..<length ?adv]
       = map (\<lambda>i. ?adv ! i) [0..<length ?adv]"
    by (intro map_cong) auto
  then have "L_clip (epsilon self) ?p ?p ?adv = - mean ?adv"
    by (simp add: L_clip_def map_nth)
  with train_step_ppo_result[OF va la lp lr ne nz, of g] same show ?thesis
    by auto
qed


theorem loss_clip_ratio_one_witness:
  "valid_actions example_backend example_agent (mb_obs unit_ratio_minibatch) (mb_actions unit_ratio_minibatch)
   \<and> new_probability example_backend example_agent (mb_obs unit_ratio_minibatch)
        (mb_actions unit_ratio_minibatch) = mb_probs unit_ratio_minibatch
   \<and> 0 \<notin> set (mb_probs unit_ratio_minibatch)
   \<and> 0 \<le> epsilon example_agent
   \<and> (\<exists>st' lv. train_step_ppo example_backend unit_ratio_minibatch (example_agent, 0) = Inr (st', 1, lv))"
proof -
  have va: "valid_actions example_backend example_agent (mb_obs unit_ratio_minibatch) (mb_actions unit_ratio_minibatch)"
    by (simp add: valid_actions_def example_backend_def example_agent_def unit_ratio_minibatch_def upt_conv_Cons)
  have same: "new_probability example_backend example_agent (mb_obs unit_ratio_minibatch)
        (mb_actions unit_ratio_minibatch) = mb_probs unit_ratio_minibatch"
    by (simp add: new_probability_def example_backend_def example_agent_def unit_ratio_minibatch_def upt_conv_Cons)
  have nz: "0 \<notin> set (mb_probs unit_ratio_minibatch)"
    by (simp add: unit_ratio_minibatch_def)
  have eps: "0 \<le> epsilon example_agent"
    by (simp add: example_agent_def)
  have m: "- mean (mb_adv unit_ratio_minibatch) = 1"
    by (simp add: mean_def unit_ratio_minibatch_def)
  from loss_clip_ratio_one[OF va _ _ _ _ same nz eps, of 0]
  have "\<exists>st' lv. train_step_ppo example_backend unit_ratio_minibatch (example_agent, 0)
          = Inr (st', - mean (mb_adv unit_ratio_minibatch), lv)"
    by (simp add: unit_ratio_minibatch_def)
  then show ?thesis using va same nz eps unfolding m by blast
qed

text \<open>
  Claim C7. A successful update step hands the actor's optimizer the gradient of the policy
  loss taken in the actor's variables and the critic's optimizer the gradient of the value
  loss taken in the critic's variables; it changes the two networks' variables and the two
  optimizer states and nothing else (the other fields of the agent and the generator are
  as before), and it returns the two losses. The policy loss reads nothing of the critic,
  the value loss nothing of the actor or of \<open>epsilon\<close>.
\<close>

theorem train_step_ppo_frame:
  assumes run: "train_step_ppo B mb (self, g) = Inr ((self', g'), lc, lv)"
  shows "(optimizer_actor self', actor self') =
           apply_gradients B (optimizer_actor self)
             (tape_gradient B
                (\<lambda>w. loss_clip B (self\<lparr>actor := w\<rparr>) g (mb_obs mb) (mb_actions mb) (mb_adv mb) (mb_probs mb))
                (actor self))
             (actor self)
       \<and> (optimizer_critic self', critic self') =
           apply_gradients B (optimizer_critic self)
             (tape_gradient B
                (\<lambda>w. loss_value B (self\<lparr>critic := w\<rparr>) (mb_obs mb) (mb_returns mb))
                (critic self))
             (critic self)
       \<and> self' = self\<lparr>actor := actor self', critic := critic self',
                        optimizer_actor := optimizer_actor self',
                        optimizer_critic := optimizer_critic self'\<rparr>
       \<and> g' = g
       \<and> loss_clip B self g (mb_obs mb) (mb_actions mb) (mb_adv mb) (mb_probs mb) = Inr lc
       \<and> loss_value B self (mb_obs mb) (mb_returns mb) = Inr lv
       \<and> (\<forall>w c oc. loss_clip B (self\<lparr>actor := w, critic := c, optimizer_critic := oc\<rparr>) g
                        (mb_obs mb) (mb_actions mb) (mb_adv mb) (mb_probs mb)
                    = loss_clip B (self\<lparr>actor := w\<rparr>) g
                        (mb_obs mb) (mb_actions mb) (mb_adv mb) (mb_probs mb))
       \<and> (\<forall>w a oa e. loss_value B (self\<lparr>critic := w, actor := a, optimizer_actor := oa, epsilon := e\<rparr>)
                        (mb_obs mb) (mb_returns mb)
                    = loss_value B (self\<lparr>critic := w\<rparr>) (mb_obs mb) (mb_returns mb))"
proof -
  from run obtain lc' lv' where
    lc': "loss_clip B self g (mb_obs mb) (mb_actions mb) (mb_adv mb) (mb_probs mb) = Inr lc'"
    and lv': "loss_value B self (mb_obs mb) (mb_returns mb) = Inr lv'"
    unfolding train_step_ppo_def by (auto simp: bindE_eq_Inr)
  obtain oa wa where a: "apply_gradients B (optimizer_actor self)
             (tape_gradient B
                (\<lambda>w. loss_clip B (self\<lparr>actor := w\<rparr>) g (mb_obs mb) (mb_actions mb) (mb_adv mb) (mb_probs mb))
                (actor self))
             (actor self) = (oa, wa)" by (rule prod.exhaust)
  obtain oc wc where c: "apply_gradients B (optimizer_critic self)
             (tape_gradient B
                (\<lambda>w. loss_value B (self\<lparr>critic := w\<rparr>) (mb_obs mb) (mb_returns mb))
                (critic self))
             (critic self) = (oc, wc)" by (rule prod.exhaust)
  from run lc' lv' a c have res:
    "self' = self\<lparr>actor := wa, critic := wc, optimizer_actor := oa, optimizer_critic := oc\<rparr>"
    "g' = g" "lc = lc'" "lv = lv'"
    unfolding train_step_ppo_def by (simp_all add: Let_def)
  have r1: "\<forall>w c oc. loss_clip B (self\<lparr>actor := w, critic := c, optimizer_critic := oc\<rparr>) g
                        (mb_obs mb) (mb_actions mb) (mb_adv mb) (mb_probs mb)
                    = loss_clip B (self\<lparr>actor := w\<rparr>) g
                        (mb_obs mb) (mb_actions mb) (mb_adv mb) (mb_probs mb)"
    by (intro allI loss_clip_reads) simp_all
  have r2: "\<forall>w a oa e. loss_value B (self\<lparr>critic := w, actor := a, optimizer_actor := oa, epsilon := e\<rparr>)
                        (mb_obs mb) (mb_returns mb)
                    = loss_value B (self\<lparr>critic := w\<rparr>) (mb_obs mb) (mb_returns mb)"
    by (intro allI loss_value_reads) simp_all
  show ?thesis
    using res a c lc' lv' r1 r2 by simp
qed

lemma example_train_step:
  "train_step_ppo example_backend example_minibatch (example_agent, 7) =
     Inr ((example_agent\<lparr>actor := 57 / 100, critic := 23 / 20,
             optimizer_actor := 1, optimizer_critic := 1\<rparr>, 7), 1 / 2, 7 / 2)"
  by (simp add: train_step_ppo_def loss_clip_def loss_value_def get_action_def get_value_def
      categorical_prob_def tf_divide_def tf_multiply_def tf_subtract_def tf_minimum_def
      tf_clip_by_value_def tf_square_def tf_reduce_mean_def elementwise_def
      example_backend_def example_agent_def example_minibatch_def Let_def)

theorem train_step_ppo_frame_witness:
  "train_step_ppo example_backend example_minibatch (example_agent, 7) =
     Inr ((example_agent\<lparr>actor := 57 / 100, critic := 23 / 20,
             optimizer_actor := 1, optimizer_critic := 1\<rparr>, 7), 1 / 2, 7 / 2)
   \<and> loss_clip example_backend example_agent 7 (mb_obs example_minibatch)
         (mb_actions example_minibatch) (mb_adv example_minibatch) (mb_probs example_minibatch)
       = Inr (1 / 2)
   \<and> loss_value example_backend example_agent (mb_obs example_minibatch)
         (mb_returns example_minibatch) = Inr (7 / 2)"
  using train_step_ppo_frame[OF example_train_step] example_train_step by simp

text \<open>
  Claim C8. Given an action, \<open>get_action\<close> returns that action with the probability the
  current policy's distribution gives it, and the generator is left as it was: no sample
  is drawn. Given none, it draws one action per observation and returns the drawn actions
  with their probabilities under the same distribution.
\<close>

theorem get_action_supplied_or_sampled:
  "(valid_actions B self x a \<longrightarrow>
      get_action B self x (Some a) g = Inr ((a, new_probability B self x a), g))
   \<and> ((\<forall>obs\<in>set x. \<forall>g'. fst (categorical_sample B (actor_call B (actor self) obs) g')
                            < length (actor_call B (actor self) obs)) \<longrightarrow>
      (let (a', g') = sample_batch (categorical_sample B) (map (actor_call B (actor self)) x) g
       in get_action B self x None g = Inr ((a', new_probability B self x a'), g')
          \<and> length a' = length x))"
proof (intro conjI impI)
  assume "valid_actions B self x a"
  then show "get_action B self x (Some a) g = Inr ((a, new_probability B self x a), g)"
    by (rule get_action_Some)
next
  let ?logits = "map (actor_call B (actor self)) x"
  assume smp: "\<forall>obs\<in>set x. \<forall>g'. fst (categorical_sample B (actor_call B (actor self) obs) g')
                            < length (actor_call B (actor self) obs)"
  obtain a' g' where sb: "sample_batch (categorical_sample B) ?logits g = (a', g')"
    by (rule prod.exhaust)
  have len: "length a' = length x"
    using sample_batch_length[of "categorical_sample B" ?logits g] sb by simp
  have "a' ! i < length (?logits ! i)" if "i < length x" for i
    using sample_batch_range[of ?logits "categorical_sample B" i g] smp that sb by simp
  then have va: "valid_actions B self x a'"
    using len by (simp add: valid_actions_def list_all_iff)
  from get_action_Some[OF va, of g'] have "prob_batch ?logits a' = Inr (new_probability B self x a')"
    by (auto simp: get_action_def bindE_eq_Inr)
  then have "get_action B self x None g = Inr ((a', new_probability B self x a'), g')"
    using sb by (simp add: get_action_def)
  with len sb show "let (a', g') = sample_batch (categorical_sample B) ?logits g
       in get_action B self x None g = Inr ((a', new_probability B self x a'), g')
          \<and> length a' = length x"
    by simp
qed

theorem get_action_supplied_or_sampled_witness:
  "valid_actions example_backend example_agent [1, 2, 3] [0, 1, 0]
   \<and> get_action example_backend example_agent [1, 2, 3] (Some [0, 1, 0]) 4
       = Inr (([0, 1, 0], [1 / 2, 1 / 2, 1 / 2]), 4)
   \<and> get_action example_backend example_agent [1, 2, 3] None 4
       = Inr (([0, 1, 0], [1 / 2, 1 / 2, 1 / 2]), 7)"
proof -
  have va: "valid_actions example_backend example_agent [1, 2, 3] [0, 1, 0]"
    by (simp add: valid_actions_def example_backend_def example_agent_def upt_conv_Cons)
  have smp: "\<forall>obs\<in>set [1, 2, 3]. \<forall>g'.
      fst (categorical_sample example_backend (actor_call example_backend (actor example_agent) obs) g')
        < length (actor_call example_backend (actor example_agent) obs)"
    by (simp add: example_backend_def)
  have sb: "sample_batch (categorical_sample example_backend)
              (map (actor_call example_backend (actor example_agent)) [1, 2, 3]) 4 = ([0, 1, 0], 7)"
    by (simp add: example_backend_def example_agent_def mod_Suc eval_nat_numeral)
  have np: "new_probability example_backend example_agent [1, 2, 3] [0, 1, 0] = [1 / 2, 1 / 2, 1 / 2]"
    by (simp add: new_probability_def example_backend_def example_agent_def upt_conv_Cons)
  from get_action_supplied_or_sampled[of example_backend example_agent "[1, 2, 3]" "[0, 1, 0]" 4]
  show ?thesis using va smp sb np by simp
qed


section \<open>The estimators\<close>

lemma calc_adv_walk_props:
  "length (calc_adv_walk t n r v g l te tr nv na acc) = n + length acc
   \<and> (\<forall>k<n. calc_adv_walk t n r v g l te tr nv na acc ! k =
        (r ! (t + k)
           + g * (if Suc k < n then v ! (t + Suc k) else nv) * continue (te ! (t + k)) (tr ! (t + k))
           - v ! (t + k))
        + g * l * continue (te ! (t + k)) (tr ! (t + k))
            * (if Suc k < n then calc_adv_walk t n r v g l te tr nv na acc ! Suc k else na))
   \<and> (\<forall>j<length acc. calc_adv_walk t n r v g l te tr nv na acc ! (n + j) = acc ! j)"
proof (induction n arbitrary: nv na acc)
  case 0
  then show ?case by simp
next
  case (Suc n)
  let ?c = "continue (te ! (t + n)) (tr ! (t + n))"
  let ?adv = "(r ! (t + n) + g * nv * ?c - v ! (t + n)) + g * l * ?c * na"
  let ?R = "calc_adv_walk t n r v g l te tr (v ! (t + n)) ?adv (?adv # acc)"
  have R: "calc_adv_walk t (Suc n) r v g l te tr nv na acc = ?R"
    by (simp add: Let_def)
  from Suc.IH[of "v ! (t + n)" ?adv "?adv # acc"]
  have len: "length ?R = n + length (?adv # acc)"
    and rec: "\<forall>k<n. ?R ! k =
        (r ! (t + k)
           + g * (if Suc k < n then v ! (t + Suc k) else v ! (t + n)) * continue (te ! (t + k)) (tr ! (t + k))
           - v ! (t + k))
        + g * l * continue (te ! (t + k)) (tr ! (t + k))
            * (if Suc k < n then ?R ! Suc k else ?adv)"
    and tail: "\<forall>j<length (?adv # acc). ?R ! (n + j) = (?adv # acc) ! j"
    by blast+
  from tail have at_n: "?R ! n = ?adv" by force
  have "\<forall>k<Suc n. ?R ! k =
        (r ! (t + k)
           + g * (if Suc k < Suc n then v ! (t + Suc k) else nv) * continue (te ! (t + k)) (tr ! (t + k))
           - v ! (t + k))
        + g * l * continue (te ! (t + k)) (tr ! (t + k))
            * (if Suc k < Suc n then ?R ! Suc k else na)"
  proof (intro allI impI)
    fix k assume k: "k < Suc n"
    show "?R ! k =
        (r ! (t + k)
           + g * (if Suc k < Suc n then v ! (t + Suc k) else nv) * continue (te ! (t + k)) (tr ! (t + k))
           - v ! (t + k))
        + g * l * continue (te ! (t + k)) (tr ! (t + k))
            * (if Suc k < Suc n then ?R ! Suc k else na)"
    proof (cases "k = n")
      case True
      then show ?thesis using at_n by simp
    next
      case False
      with k have kn: "k < n" by simp
      show ?thesis
      proof (cases "Suc k < n")
        case True
        then show ?thesis using rec kn by simp
      next
        case False
        with kn have "Suc k = n" by simp
        then show ?thesis using rec kn at_n by auto
      qed
    qed
  qed
  moreover have "\<forall>j<length acc. ?R ! (Suc n + j) = acc ! j"
  proof (intro allI impI)
    fix j assume "j < length acc"
    then have "Suc j < length (?adv # acc)" by simp
    with tail have "?R ! (n + Suc j) = (?adv # acc) ! Suc j" by blast
    then show "?R ! (Suc n + j) = acc ! j" by simp
  qed
  moreover have "length ?R = Suc n + length acc" using len by simp
  ultimately show ?case unfolding R by blast
qed

lemma calc_returns_walk_props:
  "length (calc_returns_walk t n r g te tr nr acc) = n + length acc
   \<and> (\<forall>k<n. calc_returns_walk t n r g te tr nr acc ! k =
        r ! (t + k) + g * continue (te ! (t + k)) (tr ! (t + k))
            * (if Suc k < n then calc_returns_walk t n r g te tr nr acc ! Suc k else nr))
   \<and> (\<forall>j<length acc. calc_returns_walk t n r g te tr nr acc ! (n + j) = acc ! j)"
proof (induction n arbitrary: nr acc)
  case 0
  then show ?case by simp
next
  case (Suc n)
  let ?ret = "r ! (t + n) + g * continue (te ! (t + n)) (tr ! (t + n)) * nr"
  let ?R = "calc_returns_walk t n r g te tr ?ret (?ret # acc)"
  have R: "calc_returns_walk t (Suc n) r g te tr nr acc = ?R"
    by (simp add: Let_def)
  from Suc.IH[of ?ret "?ret # acc"]
  have len: "length ?R = n + length (?ret # acc)"
    and rec: "\<forall>k<n. ?R ! k =
        r ! (t + k) + g * continue (te ! (t + k)) (tr ! (t + k))
            * (if Suc k < n then ?R ! Suc k else ?ret)"
    and tail: "\<forall>j<length (?ret # acc). ?R ! (n + j) = (?ret # acc) ! j"
    by blast+
  from tail have at_n: "?R ! n = ?ret" by force
  have "\<forall>k<Suc n. ?R ! k =
        r ! (t + k) + g * continue (te ! (t + k)) (tr ! (t + k))
            * (if Suc k < Suc n then ?R ! Suc k else nr)"
  proof (intro allI impI)
    fix k assume k: "k < Suc n"
    show "?R ! k =
        r ! (t + k) + g * continue (te ! (t + k)) (tr ! (t + k))
            * (if Suc k < Suc n then ?R ! Suc k else nr)"
    proof (cases "k = n")
      case True
      then show ?thesis using at_n by simp
    next
      case False
      with k have kn: "k < n" by simp
      show ?thesis
      proof (cases "Suc k < n")
        case True
        then show ?thesis using rec kn by simp
      next
        case False
        with kn have "Suc k = n" by simp
        then show ?thesis using rec kn at_n by auto
      qed
    qed
  qed
  moreover have "\<forall>j<length acc. ?R ! (Suc n + j) = acc ! j"
  proof (intro allI impI)
    fix j assume "j < length acc"
    then have "Suc j < length (?ret # acc)" by simp
    with tail have "?R ! (n + Suc j) = (?ret # acc) ! Suc j" by blast
    then show "?R ! (Suc n + j) = acc ! j" by simp
  qed
  moreover have "length ?R = Suc n + length acc" using len by simp
  ultimately show ?case unfolding R by blast
qed

lemma squeezed_index_Inr:
  "squeezed_index nv e = Inr x \<Longrightarrow> e < length nv \<and> x = nv ! e ! 0"
  by (auto simp: squeezed_index_def split: if_splits)

lemma calc_adv_list_Inr:
  assumes "calc_adv_list (T - 1) 0 r v g l te tr nv = Inr A" and "0 < T" and "t < T"
  shows "length A = T"
    and "t < length r" and "t < length v" and "t < length te" and "t < length tr"
    and "A ! t =
        (r ! t + g * (if Suc t < T then v ! Suc t else nv) * continue (te ! t) (tr ! t) - v ! t)
        + g * l * continue (te ! t) (tr ! t) * (if Suc t < T then A ! Suc t else 0)"
proof -
  from assms(1) have rng: "T - 1 < length r" "T - 1 < length v" "T - 1 < length te" "T - 1 < length tr"
    and A: "A = calc_adv_walk 0 (Suc (T - 1)) r v g l te tr nv 0 []"
    by (auto simp: calc_adv_list_def split: if_splits)
  from \<open>0 < T\<close> have T: "Suc (T - 1) = T" by simp
  from rng \<open>t < T\<close> show "t < length r" "t < length v" "t < length te" "t < length tr"
    by simp_all
  from calc_adv_walk_props[of 0 T r v g l te tr nv 0 "[]"] A T \<open>t < T\<close>
  show "length A = T"
    and "A ! t =
        (r ! t + g * (if Suc t < T then v ! Suc t else nv) * continue (te ! t) (tr ! t) - v ! t)
        + g * l * continue (te ! t) (tr ! t) * (if Suc t < T then A ! Suc t else 0)"
    by simp_all
qed

lemma calc_returns_Inr:
  assumes "calc_returns (T - 1) 0 r g te tr = Inr R" and "0 < T" and "t < T"
  shows "length R = T"
    and "t < length r" and "t < length te" and "t < length tr"
    and "R ! t = r ! t + g * continue (te ! t) (tr ! t) * (if Suc t < T then R ! Suc t else 0)"
proof -
  from assms(1) have rng: "T - 1 < length r" "T - 1 < length te" "T - 1 < length tr"
    and R: "R = calc_returns_walk 0 (Suc (T - 1)) r g te tr 0 []"
    by (auto simp: calc_returns_def split: if_splits)
  from \<open>0 < T\<close> have T: "Suc (T - 1) = T" by simp
  from rng \<open>t < T\<close> show "t < length r" "t < length te" "t < length tr"
    by simp_all
  from calc_returns_walk_props[of 0 T r g te tr 0 "[]"] R T \<open>t < T\<close>
  show "length R = T"
    and "R ! t = r ! t + g * continue (te ! t) (tr ! t) * (if Suc t < T then R ! Suc t else 0)"
    by simp_all
qed

lemma compute_advantages_column:
  assumes A: "compute_advantages self T m next_val = Inr A"
    and T: "0 < T" and e: "env_id < num_envs m" and t: "t < T"
  shows "length (A ! env_id) = T \<and>
         A ! env_id ! t =
           (rewards m ! t ! env_id
              + gamma self * (if Suc t < T then values m ! Suc t ! env_id else next_val ! env_id ! 0)
                  * continue (terminateds m ! t ! env_id) (truncateds m ! t ! env_id)
              - values m ! t ! env_id)
           + gamma self * lmbda self * continue (terminateds m ! t ! env_id) (truncateds m ! t ! env_id)
               * (if Suc t < T then A ! env_id ! Suc t else 0)"
proof -
  from mapE_Inr[OF A[unfolded compute_advantages_def]] e
  obtain r v te tr nv where r: "column (rewards m) env_id = Inr r"
    and v: "column (values m) env_id = Inr v"
    and te: "column (terminateds m) env_id = Inr te"
    and tr: "column (truncateds m) env_id = Inr tr"
    and nv: "squeezed_index next_val env_id = Inr nv"
    and c: "calc_adv_list (T - 1) 0 r v (gamma self) (lmbda self) te tr nv = Inr (A ! env_id)"
    by (fastforce simp: bindE_eq_Inr)
  note L = calc_adv_list_Inr[OF c T]
  have st: "Suc t < length v" if "Suc t < T"
    using L(3)[OF that] .
  from column_Inr[OF r] L(2)[OF t] have r': "r ! t = rewards m ! t ! env_id" by simp
  from column_Inr[OF v] L(3)[OF t] have v': "v ! t = values m ! t ! env_id" by simp
  from column_Inr[OF v] st have v'': "Suc t < T \<Longrightarrow> v ! Suc t = values m ! Suc t ! env_id" by simp
  from column_Inr[OF te] L(4)[OF t] have te': "te ! t = terminateds m ! t ! env_id" by simp
  from column_Inr[OF tr] L(5)[OF t] have tr': "tr ! t = truncateds m ! t ! env_id" by simp
  from squeezed_index_Inr[OF nv] have nv': "nv = next_val ! env_id ! 0" by simp
  show ?thesis
    using L(1)[OF t] L(6)[OF t] r' v' v'' te' tr' nv' by auto
qed

lemma compute_returns_column:
  assumes R: "compute_returns self T m = Inr R"
    and T: "0 < T" and e: "env_id < num_envs m" and t: "t < T"
  shows "length (R ! env_id) = T \<and>
         R ! env_id ! t =
           rewards m ! t ! env_id
           + gamma self * continue (terminateds m ! t ! env_id) (truncateds m ! t ! env_id)
               * (if Suc t < T then R ! env_id ! Suc t else 0)"
proof -
  from mapE_Inr[OF R[unfolded compute_returns_def]] e
  obtain r te tr where r: "column (rewards m) env_id = Inr r"
    and te: "column (terminateds m) env_id = Inr te"
    and tr: "column (truncateds m) env_id = Inr tr"
    and c: "calc_returns (T - 1) 0 r (gamma self) te tr = Inr (R ! env_id)"
    by (fastforce simp: bindE_eq_Inr)
  note L = calc_returns_Inr[OF c T]
  from column_Inr[OF r] L(2)[OF t] have r': "r ! t = rewards m ! t ! env_id" by simp
  from column_Inr[OF te] L(3)[OF t] have te': "te ! t = terminateds m ! t ! env_id" by simp
  from column_Inr[OF tr] L(4)[OF t] have tr': "tr ! t = truncateds m ! t ! env_id" by simp
  show ?thesis
    using L(1)[OF t] L(5)[OF t] r' te' tr' by auto
qed

lemma estimate_Inr:
  assumes "estimate B T d = Inr d'"
  obtains A R where
    "compute_advantages (agent d) T (mem d) (get_value B (agent d) (observation d)) = Inr A"
    "compute_returns (agent d) T ((mem d)\<lparr>advantages := A\<rparr>) = Inr R"
    "d' = d\<lparr>mem := flatten ((mem d)\<lparr>advantages := A, returns := R\<rparr>)\<rparr>"
  using assms unfolding estimate_def by (auto simp: bindE_eq_Inr Let_def)

lemma compute_returns_reads:
  "compute_returns self T (m\<lparr>advantages := A\<rparr>) = compute_returns self T m"
  by (simp add: compute_returns_def)

lemma squeezed_index_get_value:
  assumes "compute_advantages self T m (get_value B self' obs) = Inr A" "env_id < num_envs m"
  shows "get_value B self' obs ! env_id ! 0 = critic_call B (critic self') (obs ! env_id)"
proof -
  from mapE_Inr[OF assms(1)[unfolded compute_advantages_def]] assms(2)
  obtain nv where "squeezed_index (get_value B self' obs) env_id = Inr nv"
    by (fastforce simp: bindE_eq_Inr)
  from squeezed_index_Inr[OF this] show ?thesis by (simp add: get_value_def)
qed

lemma example_estimate:
  "estimate example_backend 2 example_driver =
     Inr (example_driver\<lparr>mem := example_memory
            \<lparr>advantages := [[1 / 2, - 4], [- 4, 5]],
             returns := [[37 / 10, 3], [2, 4]], f_obss := [0, 0, 0, 0],
             f_actions := [0, 0, 0, 0], f_advantages := [1 / 2, - 4, - 4, 5],
             f_probs := [0, 0, 0, 0], f_returns := [37 / 10, 2, 3, 4]\<rparr>\<rparr>)"
  by (simp add: estimate_def compute_advantages_def compute_returns_def example_driver_def
      example_memory_def example_agent_def example_backend_def get_value_def column_def
      squeezed_index_def calc_adv_list_def calc_returns_def continue_def flatten_def
      upt_conv_Cons numeral_2_eq_2 Let_def transpose.simps)

text \<open>
  Claim C3. In every environment column, the advantage stored for timestep \<open>t\<close> is
  \<open>delta_t + gamma * lambda * continue_t * advantage_{t+1}\<close> with
  \<open>delta_t = reward_t + gamma * next_value * continue_t - value_t\<close>, where \<open>continue_t\<close> is
  0 when the episode terminated or was truncated at \<open>t\<close> and 1 otherwise, \<open>next_value\<close> is
  the critic's value of the observation after the rollout at the last timestep and
  \<open>value_{t+1}\<close> before it, and the advantage past the last timestep is 0.
\<close>

theorem estimate_advantage_recurrence:
  assumes est: "estimate B single_batch_ts d = Inr d'"
    and T: "0 < single_batch_ts" and e: "env_id < num_envs (mem d)" and t: "t < single_batch_ts"
  shows "let m = mem d;
             advantage = advantages (mem d') ! env_id;
             continue_t = continue (terminateds m ! t ! env_id) (truncateds m ! t ! env_id);
             next_value = (if Suc t < single_batch_ts then values m ! Suc t ! env_id
                           else critic_call B (critic (agent d)) (observation d ! env_id));
             delta_t = rewards m ! t ! env_id + gamma (agent d) * next_value * continue_t
                         - values m ! t ! env_id
         in length advantage = single_batch_ts \<and>
            advantage ! t =
              delta_t + gamma (agent d) * lmbda (agent d) * continue_t
                          * (if Suc t < single_batch_ts then advantage ! Suc t else 0)"
proof -
  from est obtain A R where
    A: "compute_advantages (agent d) single_batch_ts (mem d) (get_value B (agent d) (observation d)) = Inr A"
    and d': "d' = d\<lparr>mem := flatten ((mem d)\<lparr>advantages := A, returns := R\<rparr>)\<rparr>"
    by (rule estimate_Inr)
  from d' have adv: "advantages (mem d') = A" by (simp add: flatten_def)
  from compute_advantages_column[OF A T e t] squeezed_index_get_value[OF A e]
  show ?thesis unfolding adv Let_def by simp
qed

theorem estimate_advantage_recurrence_witness:
  "\<exists>d'. estimate example_backend 2 example_driver = Inr d'
      \<and> length (advantages (mem d') ! 0) = 2
      \<and> advantages (mem d') ! 0 ! 0
          = (1 + 9 / 10 * 7 * 1 - 5) + 9 / 10 * (1 / 2) * 1 * (advantages (mem d') ! 0 ! 1)
      \<and> advantages (mem d') ! 1 ! 1 = (4 + 9 / 10 * 10 * 1 - 8) + 9 / 10 * (1 / 2) * 1 * 0"
proof -
  obtain d' where e: "estimate example_backend 2 example_driver = Inr d'"
    using example_estimate by blast
  have n: "(0::nat) < num_envs (mem example_driver)" "(1::nat) < num_envs (mem example_driver)"
    by (simp_all add: example_driver_def example_memory_def)
  from estimate_advantage_recurrence[OF e _ n(1), of 0]
  have a: "length (advantages (mem d') ! 0) = 2
      \<and> advantages (mem d') ! 0 ! 0
          = (1 + 9 / 10 * 7 * 1 - 5) + 9 / 10 * (1 / 2) * 1 * (advantages (mem d') ! 0 ! 1)"
    by (simp add: Let_def example_driver_def example_memory_def example_agent_def continue_def)
  from estimate_advantage_recurrence[OF e _ n(2), of 1]
  have b: "advantages (mem d') ! 1 ! 1 = (4 + 9 / 10 * 10 * 1 - 8) + 9 / 10 * (1 / 2) * 1 * 0"
    by (simp add: Let_def example_driver_def example_memory_def example_agent_def
        example_backend_def continue_def)
  from e a b show ?thesis by blast
qed

text \<open>
  Claim C4. In every environment column, the stored return for timestep \<open>t\<close> is
  \<open>reward_t + gamma * continue_t * return_{t+1}\<close>, with the continuation rule of the
  advantages and the return past the last timestep 0; for rewards 1, 2, 3, \<open>gamma = 0.9\<close>
  and no termination or truncation the returns are 5.23, 4.7 and 3.
\<close>

theorem estimate_return_recurrence:
  "(estimate B single_batch_ts d = Inr d' \<and> 0 < single_batch_ts \<and> env_id < num_envs (mem d)
      \<and> t < single_batch_ts \<longrightarrow>
     (let m = mem d;
          ret = returns (mem d') ! env_id;
          continue_t = continue (terminateds m ! t ! env_id) (truncateds m ! t ! env_id)
      in length ret = single_batch_ts \<and>
         ret ! t = rewards m ! t ! env_id
                     + gamma (agent d) * continue_t
                         * (if Suc t < single_batch_ts then ret ! Suc t else 0)))
   \<and> calc_returns 2 0 [1, 2, 3] (9 / 10) [False, False, False] [False, False, False]
       = Inr [523 / 100, 47 / 10, 3]"
proof (intro conjI impI)
  assume asm: "estimate B single_batch_ts d = Inr d' \<and> 0 < single_batch_ts \<and> env_id < num_envs (mem d)
      \<and> t < single_batch_ts"
  then obtain A R where
    R: "compute_returns (agent d) single_batch_ts ((mem d)\<lparr>advantages := A\<rparr>) = Inr R"
    and d': "d' = d\<lparr>mem := flatten ((mem d)\<lparr>advantages := A, returns := R\<rparr>)\<rparr>"
    by (auto elim: estimate_Inr)
  from d' have ret: "returns (mem d') = R" by (simp add: flatten_def)
  from R have R': "compute_returns (agent d) single_batch_ts (mem d) = Inr R"
    by (simp add: compute_returns_reads)
  from asm have T: "0 < single_batch_ts" and e: "env_id < num_envs (mem d)" and t: "t < single_batch_ts"
    by simp_all
  from compute_returns_column[OF R' T e t]
  show "let m = mem d;
          ret = returns (mem d') ! env_id;
          continue_t = continue (terminateds m ! t ! env_id) (truncateds m ! t ! env_id)
      in length ret = single_batch_ts \<and>
         ret ! t = rewards m ! t ! env_id
                     + gamma (agent d) * continue_t
                         * (if Suc t < single_batch_ts then ret ! Suc t else 0)"
    unfolding ret Let_def by simp
next
  show "calc_returns 2 0 [1, 2, 3] (9 / 10) [False, False, False] [False, False, False]
       = Inr [523 / 100, 47 / 10, 3]"
    by (simp add: calc_returns_def numeral_3_eq_3 continue_def Let_def)
qed

theorem estimate_return_recurrence_witness:
  "\<exists>d'. estimate example_backend 2 example_driver = Inr d'
      \<and> returns (mem d') ! 0 ! 0 = 1 + 9 / 10 * 1 * (returns (mem d') ! 0 ! 1)
      \<and> returns (mem d') ! 1 ! 0 = 2 + 9 / 10 * 0 * (returns (mem d') ! 1 ! 1)"
proof -
  obtain d' where e: "estimate example_backend 2 example_driver = Inr d'"
    using example_estimate by blast
  have n: "(0::nat) < num_envs (mem example_driver)" "(1::nat) < num_envs (mem example_driver)"
    by (simp_all add: example_driver_def example_memory_def)
  from estimate_return_recurrence[of example_backend 2 example_driver d' 0 0] e n(1)
  have a: "returns (mem d') ! 0 ! 0 = 1 + 9 / 10 * 1 * (returns (mem d') ! 0 ! 1)"
    by (simp add: Let_def example_driver_def example_memory_def example_agent_def continue_def)
  from estimate_return_recurrence[of example_backend 2 example_driver d' 1 0] e n(2)
  have b: "returns (mem d') ! 1 ! 0 = 2 + 9 / 10 * 0 * (returns (mem d') ! 1 ! 1)"
    by (simp add: Let_def example_driver_def example_memory_def example_agent_def continue_def)
  from e a b show ?thesis by blast
qed

section \<open>The driver\<close>

lemma rollout_step_values:
  assumes "rollout_step B envs t d = Inr d'"
  shows "values (mem d') = values (mem d)"
  using assms unfolding rollout_step_def
  by (auto simp: bindE_def Let_def split: sum.splits prod.splits)

lemma rollout_values:
  assumes "rollout B envs T d = Inr d'"
  shows "values (mem d') = values (mem d)"
proof -
  from assms obtain d1 obss' where
    loop: "foldE (rollout_step B envs) [0..<T] d = Inr d1"
    and d': "d' = d1\<lparr>mem := (mem d1)\<lparr>obss := obss'\<rparr>\<rparr>"
    unfolding rollout_def by (auto simp: bindE_eq_Inr Let_def)
  have "values (mem d1) = values (mem d)"
    by (rule foldE_invariant[where P = "\<lambda>s. values (mem s) = values (mem d)", OF _ _ loop])
       (simp_all add: rollout_step_values)
  with d' show ?thesis by simp
qed

lemma estimate_values:
  assumes "estimate B T d = Inr d'"
  shows "values (mem d') = values (mem d)"
  using assms by (elim estimate_Inr) (simp add: flatten_def)

lemma optimize_mem:
  assumes "optimize B minibatch_size epochs d = Inr d'"
  shows "mem d' = mem d"
  using assms unfolding optimize_def by (auto simp: bindE_eq_Inr split: prod.splits)

lemma update_cycle_Inr:
  assumes "update_cycle B envs T minibatch_size epochs update d = Inr d'"
  obtains d1 d2 where "rollout B envs T d = Inr d1" "estimate B T d1 = Inr d2"
    "optimize B minibatch_size epochs d2 = Inr d'"
  using assms unfolding update_cycle_def by (auto simp: bindE_eq_Inr)

lemma update_cycle_values:
  assumes "update_cycle B envs T minibatch_size epochs update d = Inr d'"
  shows "values (mem d') = values (mem d)"
  using assms
  by (elim update_cycle_Inr) (simp add: rollout_values estimate_values optimize_mem)

lemma example_cycle_runs:
  "\<not> isl (update_cycle example_backend example_envs 2 1 1 0 example_driver)"
  by (simp add: update_cycle_def rollout_def rollout_step_def estimate_def
      optimize_def epoch_loop_def epoch_step_def minibatch_step_def minibatch_at_def take_ids_def
      train_step_ppo_def loss_clip_def loss_value_def get_action_def get_value_def
      categorical_prob_def write_row_def
      tf_divide_def tf_multiply_def tf_subtract_def tf_minimum_def tf_clip_by_value_def
      tf_square_def tf_reduce_mean_def elementwise_def np_mean_def
      compute_advantages_def compute_returns_def column_def squeezed_index_def
      calc_adv_list_def calc_returns_def continue_def flatten_def
      example_driver_def example_envs_def example_memory_def example_agent_def example_backend_def
      upt_conv_Cons numeral_2_eq_2 Let_def)

lemma example_play_runs:
  "\<not> isl (play_n_timesteps example_backend example_envs example_agent 0 0 example_memory 2 2 1 1)"
proof -
  have "play_n_timesteps example_backend example_envs example_agent 0 0 example_memory 2 2 1 1
        = update_cycle example_backend example_envs 2 1 1 0 example_driver"
    by (simp add: play_n_timesteps_def example_envs_def example_driver_def bindE_def
        split: sum.splits)
  then show ?thesis using example_cycle_runs by simp
qed

text \<open>
  Claim C9. No phase of an update cycle writes the buffer's \<open>values\<close>: after a cycle, and
  after any number of cycles of \<open>play_n_timesteps\<close>, the field holds what it held before,
  and the advantages of a cycle are computed from a buffer whose \<open>values\<close> are those from
  before the rollout.
\<close>

theorem values_never_written:
  "(update_cycle B envs single_batch_ts minibatch_size epochs update d = Inr d' \<longrightarrow>
      values (mem d') = values (mem d)
      \<and> (\<exists>d1. rollout B envs single_batch_ts d = Inr d1
               \<and> values (mem d1) = values (mem d)
               \<and> compute_advantages (agent d1) single_batch_ts (mem d1)
                    (get_value B (agent d1) (observation d1)) = Inr (advantages (mem d'))))
   \<and> (play_n_timesteps B envs self e g m t_timesteps single_batch_ts minibatch_size epochs = Inr d''
        \<longrightarrow> values (mem d'') = values m)"
proof (intro conjI impI)
  assume run: "update_cycle B envs single_batch_ts minibatch_size epochs update d = Inr d'"
  then show "values (mem d') = values (mem d)" by (rule update_cycle_values)
  from run obtain d1 d2 where d1: "rollout B envs single_batch_ts d = Inr d1"
    and d2: "estimate B single_batch_ts d1 = Inr d2"
    and d3: "optimize B minibatch_size epochs d2 = Inr d'"
    by (rule update_cycle_Inr)
  from d2 obtain A R where
    A: "compute_advantages (agent d1) single_batch_ts (mem d1) (get_value B (agent d1) (observation d1)) = Inr A"
    and d2': "d2 = d1\<lparr>mem := flatten ((mem d1)\<lparr>advantages := A, returns := R\<rparr>)\<rparr>"
    by (rule estimate_Inr)
  from d2' optimize_mem[OF d3] have "advantages (mem d') = A" by (simp add: flatten_def)
  with A d1 rollout_values[OF d1]
  show "\<exists>d1. rollout B envs single_batch_ts d = Inr d1
               \<and> values (mem d1) = values (mem d)
               \<and> compute_advantages (agent d1) single_batch_ts (mem d1)
                    (get_value B (agent d1) (observation d1)) = Inr (advantages (mem d'))"
    by auto
next
  assume run: "play_n_timesteps B envs self e g m t_timesteps single_batch_ts minibatch_size epochs = Inr d''"
  obtain observation0 e' where r: "reset envs e = (observation0, e')" by (rule prod.exhaust)
  let ?d0 = "\<lparr>agent = self, mem = m, observation = observation0, env_state = e', rng = g,
              update_mean_actor_loss = [], update_mean_critic_loss = [], history = []\<rparr>"
  from run r have loop: "foldE (update_cycle B envs single_batch_ts minibatch_size epochs)
       [0..<t_timesteps div single_batch_ts] ?d0 = Inr d''"
    unfolding play_n_timesteps_def by (simp add: Let_def split: if_splits)
  have "values (mem d'') = values (mem ?d0)"
    by (rule foldE_invariant[where P = "\<lambda>s. values (mem s) = values (mem ?d0)", OF _ _ loop])
       (simp_all add: update_cycle_values)
  then show "values (mem d'') = values m" by simp
qed

theorem values_never_written_witness:
  "(\<exists>d'. update_cycle example_backend example_envs 2 1 1 0 example_driver = Inr d'
         \<and> values (mem d') = [[5, 6], [7, 8]])
   \<and> (\<exists>d''. play_n_timesteps example_backend example_envs example_agent 0 0 example_memory 2 2 1 1
            = Inr d''
         \<and> values (mem d'') = [[5, 6], [7, 8]])"
proof -
  from example_cycle_runs obtain d' where
    cycle: "update_cycle example_backend example_envs 2 1 1 0 example_driver = Inr d'"
    by (cases "update_cycle example_backend example_envs 2 1 1 0 example_driver") simp_all
  from example_play_runs obtain d'' where
    run: "play_n_timesteps example_backend example_envs example_agent 0 0 example_memory 2 2 1 1
            = Inr d''"
    by (cases "play_n_timesteps example_backend example_envs example_agent 0 0 example_memory 2 2 1 1")
       simp_all
  from values_never_written[of example_backend example_envs 2 1 1 0 example_driver d'
         example_agent 0 0 example_memory 2 d''] cycle run
  have "values (mem d') = values (mem example_driver)" and "values (mem d'') = values example_memory"
    by blast+
  with cycle run show ?thesis by (simp add: example_driver_def example_memory_def)
qed

lemma take_ids_upt: "b \<le> length a \<Longrightarrow> take_ids a [i..<b] = Inr (map (\<lambda>j. a ! j) [i..<b])"
  by (simp add: take_ids_def list_all_iff)

lemma minibatch_at_index_memory:
  assumes "b \<le> n"
  shows "\<exists>batch. minibatch_at (index_memory n) [a..<b] = Inr batch \<and> mb_obs batch = [a..<b]"
proof -
  have "map (\<lambda>j. [0..<n] ! j) [a..<b] = [a..<b]"
    using assms by (intro map_idI) simp
  then show ?thesis
    using assms by (simp add: minibatch_at_def index_memory_def take_ids_upt)
qed

lemma minibatch_loop_record:
  assumes "b \<le> n"
  shows "foldE (minibatch_step record_step (index_memory n) [a..<b]) [0..<j] (consumed, al, cl)
         = Inr (consumed @ replicate j [a..<b], al @ replicate j 0, cl @ replicate j 0)"
proof (induction j)
  case 0
  then show ?case by simp
next
  case (Suc j)
  from minibatch_at_index_memory[OF assms, of a] obtain batch where
    b: "minibatch_at (index_memory n) [a..<b] = Inr batch" "mb_obs batch = [a..<b]" by blast
  show ?case
    using Suc b
    by (simp add: foldE_snoc minibatch_step_def record_step_def replicate_append_same)
qed

lemma epoch_loop_record:
  assumes "epochs * minibatch_size \<le> n"
  shows "foldE (epoch_step record_step (index_memory n) minibatch_size) [0..<epochs] (consumed, al, cl)
         = Inr (consumed @ concat (map (\<lambda>epoch. replicate minibatch_size
                                     [epoch * minibatch_size..<epoch * minibatch_size + minibatch_size])
                                   [0..<epochs]),
                al @ replicate (epochs * minibatch_size) 0,
                cl @ replicate (epochs * minibatch_size) 0)"
  using assms
proof (induction epochs)
  case 0
  then show ?case by simp
next
  case (Suc epochs)
  from Suc.prems have le: "epochs * minibatch_size \<le> n"
    and b: "epochs * minibatch_size + minibatch_size \<le> n" by (simp_all add: add.commute)
  have r: "replicate (Suc epochs * minibatch_size) (0::real)
             = replicate (epochs * minibatch_size) 0 @ replicate minibatch_size 0"
    by (simp add: replicate_add[symmetric] add.commute)
  show ?case
    unfolding r using Suc.IH[OF le] minibatch_loop_record[OF b]
    by (simp add: foldE_snoc epoch_step_def Let_def)
qed

lemma epoch_loop_consumes:
  assumes "epochs * minibatch_size \<le> n"
  shows "epoch_loop record_step (index_memory n) minibatch_size epochs []
         = Inr (concat (map (\<lambda>epoch. replicate minibatch_size
                               [epoch * minibatch_size..<epoch * minibatch_size + minibatch_size])
                             [0..<epochs]),
                replicate (epochs * minibatch_size) 0,
                replicate (epochs * minibatch_size) 0)"
  using epoch_loop_record[OF assms, of "[]" "[]" "[]"] by (simp add: epoch_loop_def)

text \<open>
  Claim C1. The claim fails on the code. With a flattened buffer of four samples, a
  minibatch size of 2 and one epoch, the update step is given the slice of indices 0 and 1
  twice and the samples 2 and 3 never; with two epochs it is given the slice 0, 1 twice,
  then the slice 2, 3 twice. An epoch uses the single slice that starts at
  \<open>epoch * minibatch_size\<close>, \<open>minibatch_size\<close> times over.
\<close>

theorem epoch_loop_repeats_one_slice:
  "epoch_loop record_step (index_memory 4) 2 1 [] = Inr ([[0, 1], [0, 1]], [0, 0], [0, 0])
   \<and> epoch_loop record_step (index_memory 4) 2 2 [] =
       Inr ([[0, 1], [0, 1], [2, 3], [2, 3]], [0, 0, 0, 0], [0, 0, 0, 0])"
  by (simp add: epoch_loop_def epoch_step_def minibatch_step_def minibatch_at_def take_ids_def
      record_step_def index_memory_def example_memory_def upt_conv_Cons numeral_2_eq_2 Let_def)

lemma rollout_step_Inr:
  assumes "rollout_step B envs t d = Inr d'"
  obtains acts prbs g' observation' reward terminated truncated e' where
    "get_action B (agent d) (observation d) None (rng d) = Inr ((acts, prbs), g')"
    "step envs (env_state d) acts = ((observation', reward, terminated, truncated), e')"
    "t < length (obss (mem d))" "t < length (actions (mem d))" "t < length (probs (mem d))"
    "obss (mem d') = (obss (mem d))[t := observation d]"
    "actions (mem d') = (actions (mem d))[t := acts]"
    "probs (mem d') = (probs (mem d))[t := prbs]"
    "observation d' = observation'"
    "history d' = history d @ [(observation d, acts, prbs)]"
proof -
  from assms obtain obss' acts prbs g' where
    w: "write_row (obss (mem d)) t (observation d) = Inr obss'"
    and ga: "get_action B (agent d) (observation d) None (rng d) = Inr ((acts, prbs), g')"
    and rest: "(let ((observation', reward, terminated, truncated), e') = step envs (env_state d) acts in
        bindE (write_row (actions (mem d)) t acts) (\<lambda>actions'.
        bindE (write_row (probs (mem d)) t prbs) (\<lambda>probs'.
        bindE (write_row (rewards (mem d)) t reward) (\<lambda>rewards'.
        bindE (write_row (terminateds (mem d)) t terminated) (\<lambda>terminateds'.
        bindE (write_row (truncateds (mem d)) t truncated) (\<lambda>truncateds'.
          Inr (d\<lparr>mem := (mem d)\<lparr>obss := obss', actions := actions', probs := probs',
                            rewards := rewards', terminateds := terminateds',
                            truncateds := truncateds'\<rparr>,
                  observation := observation',
                  env_state := e',
                  rng := g',
                  history := history d @ [(observation d, acts, prbs)]\<rparr>))))))) = Inr d'"
    unfolding rollout_step_def Let_def by (auto simp: bindE_eq_Inr)
  obtain observation' reward terminated truncated e' where
    st: "step envs (env_state d) acts = ((observation', reward, terminated, truncated), e')"
    by (metis prod.exhaust)
  from rest st obtain actions' probs' rewards' terminateds' truncateds' where
    wa: "write_row (actions (mem d)) t acts = Inr actions'"
    and wp: "write_row (probs (mem d)) t prbs = Inr probs'"
    and d': "d' = d\<lparr>mem := (mem d)\<lparr>obss := obss', actions := actions', probs := probs',
                            rewards := rewards', terminateds := terminateds',
                            truncateds := truncateds'\<rparr>,
                  observation := observation',
                  env_state := e',
                  rng := g',
                  history := history d @ [(observation d, acts, prbs)]\<rparr>"
    by (auto simp: bindE_eq_Inr)
  show thesis
    using that[OF ga st] write_row_Inr[OF w] write_row_Inr[OF wa] write_row_Inr[OF wp] d'
    by simp
qed

lemma rollout_step_paired:
  assumes p: "paired_upto h k d" and s: "rollout_step B envs k d = Inr d'"
  shows "paired_upto h (Suc k) d'"
proof -
  from s obtain acts prbs where
    len: "k < length (obss (mem d))" "k < length (actions (mem d))" "k < length (probs (mem d))"
    and o: "obss (mem d') = (obss (mem d))[k := observation d]"
    and a: "actions (mem d') = (actions (mem d))[k := acts]"
    and pr: "probs (mem d') = (probs (mem d))[k := prbs]"
    and h: "history d' = history d @ [(observation d, acts, prbs)]"
    by (rule rollout_step_Inr)
  from p have hl: "length (history d) = h + k"
    and old: "\<forall>t<k. history d ! (h + t) = (obss (mem d) ! t, actions (mem d) ! t, probs (mem d) ! t)"
    by (simp_all add: paired_upto_def)
  have "history d' ! (h + t) = (obss (mem d') ! t, actions (mem d') ! t, probs (mem d') ! t)"
    if "t < Suc k" for t
  proof (cases "t = k")
    case True
    then show ?thesis using h hl o a pr len by (simp add: nth_append)
  next
    case False
    with that have "t < k" by simp
    then show ?thesis using h hl o a pr old by (simp add: nth_append)
  qed
  then show ?thesis using h hl by (simp add: paired_upto_def)
qed

lemma rollout_pairing:
  assumes run: "rollout B envs single_batch_ts d = Inr d'"
    and T: "0 < single_batch_ts" and h0: "history d = []"
  shows "length (history d') = single_batch_ts"
    and "\<forall>t<single_batch_ts. actions (mem d') ! t = fst (snd (history d' ! t))
                                \<and> probs (mem d') ! t = snd (snd (history d' ! t))"
    and "\<forall>t<single_batch_ts - 1. obss (mem d') ! t = fst (history d' ! t)"
    and "obss (mem d') ! (single_batch_ts - 1) = observation d'"
proof -
  from run obtain d1 obss' where
    loop: "foldE (rollout_step B envs) [0..<single_batch_ts] d = Inr d1"
    and w: "write_row (obss (mem d1)) (single_batch_ts - 1) (observation d1) = Inr obss'"
    and d': "d' = d1\<lparr>mem := (mem d1)\<lparr>obss := obss'\<rparr>\<rparr>"
    unfolding rollout_def by (auto simp: bindE_eq_Inr Let_def)
  have p0: "paired_upto 0 0 d" using h0 by (simp add: paired_upto_def)
  have "paired_upto 0 single_batch_ts d1"
  proof (rule foldE_upt_invariant[where P = "paired_upto 0" and f = "rollout_step B envs", OF _ p0 loop])
    fix k s s'
    assume "paired_upto 0 k s" and "rollout_step B envs k s = Inr s'"
    then show "paired_upto 0 (Suc k) s'" by (rule rollout_step_paired)
  qed
  then have hl: "length (history d1) = single_batch_ts"
    and p: "\<forall>t<single_batch_ts. history d1 ! t = (obss (mem d1) ! t, actions (mem d1) ! t, probs (mem d1) ! t)"
    by (simp_all add: paired_upto_def)
  from write_row_Inr[OF w] have o: "obss' = (obss (mem d1))[single_batch_ts - 1 := observation d1]"
    and l: "single_batch_ts - 1 < length (obss (mem d1))" by simp_all
  show "length (history d') = single_batch_ts" using hl d' by simp
  show "\<forall>t<single_batch_ts. actions (mem d') ! t = fst (snd (history d' ! t))
                                \<and> probs (mem d') ! t = snd (snd (history d' ! t))"
    using p d' by simp
  show "\<forall>t<single_batch_ts - 1. obss (mem d') ! t = fst (history d' ! t)"
    using p d' o by simp
  show "obss (mem d') ! (single_batch_ts - 1) = observation d'"
    using d' o l by simp
qed

text \<open>
  Claim C2. The claim fails on the code at the last timestep. In a rollout of two timesteps
  over two environments whose observations count the steps, the actions of the second
  timestep are produced on the observations 1 and 11, and the buffer holds 2 and 12 at
  their flattened indices 2 and 3: the observation after the last step has overwritten
  the one the policy saw.
\<close>

theorem rollout_overwrites_last_observation:
  "bindE (rollout example_backend example_envs 2 example_driver)
         (\<lambda>d. Inr (f_obss (flatten (mem d)), f_actions (flatten (mem d)), map fst (history d)))
   = Inr ([0, 10, 2, 12], [0, 1, 0, 1], [[0, 10], [1, 11]])"
  by (simp add: rollout_def rollout_step_def get_action_def categorical_prob_def write_row_def
      flatten_def example_driver_def example_envs_def example_memory_def example_agent_def
      example_backend_def upt_conv_Cons numeral_2_eq_2 mod_Suc Let_def)


section \<open>The DQN policy\<close>

text \<open>
  Claim C10. Whenever the draw is below \<open>epsilon\<close>, \<open>epsilon_greedy_policy\<close> returns an
  integer uniform on 0, 1, 2: each with probability one third, whatever the agent's
  \<open>n_outputs\<close> (2 in the example, where the action 2 is still drawn).
\<close>

theorem exploration_is_uniform_on_three:
  "u < eps \<Longrightarrow> epsilon_greedy_policy self state eps u = Inr [(0, 1 / 3), (1, 1 / 3), (2, 1 / 3)]"
  by (simp add: epsilon_greedy_policy_def np_random_randint_def upt_conv_Cons numeral_3_eq_3)

theorem exploration_is_uniform_on_three_witness:
  "(0::real) < 1 / 2 \<and> dqn_n_outputs example_dqn = 2
   \<and> epsilon_greedy_policy example_dqn 5 (1 / 2) 0 = Inr [(0, 1 / 3), (1, 1 / 3), (2, 1 / 3)]"
  using exploration_is_uniform_on_three[of 0 "1 / 2" example_dqn 5]
  by (simp add: example_dqn_def)

end
